theory Spec2Isabelle
  imports Main "HOL-Library.Sublist" "HOL-Library.Word"
begin

unbundle bit_operations_syntax

section \<open>Go standard library functions used by the organizer\<close>

text \<open>
  The organizer is written in Go and calls \<^verbatim>\<open>strings\<close>, \<^verbatim>\<open>path/filepath\<close> and \<^verbatim>\<open>fmt\<close>.
  A Go string is a sequence of bytes, here a \<^typ>\<open>string\<close>. The functions below follow the
  library's behaviour on a Unix platform (separator \<^verbatim>\<open>/\<close>, no volume names).
  \<^verbatim>\<open>strings.ToLower\<close> is modelled on ASCII: the bytes \<^verbatim>\<open>A\<close> to \<^verbatim>\<open>Z\<close> are mapped to
  \<^verbatim>\<open>a\<close> to \<^verbatim>\<open>z\<close> and every other byte is kept (Go also lowers upper-case letters beyond
  ASCII, which the model leaves unchanged).
\<close>

definition lowerOf :: "(char \<times> char) list" where
  "lowerOf = zip ''ABCDEFGHIJKLMNOPQRSTUVWXYZ'' ''abcdefghijklmnopqrstuvwxyz''"

definition toLowerByte :: "char \<Rightarrow> char" where
  "toLowerByte c = (case map_of lowerOf c of Some l \<Rightarrow> l | None \<Rightarrow> c)"

definition ToLower :: "string \<Rightarrow> string" where
  "ToLower s = map toLowerByte s"

definition HasPrefix :: "string \<Rightarrow> string \<Rightarrow> bool" where
  "HasPrefix s p = prefix p s"

definition HasSuffix :: "string \<Rightarrow> string \<Rightarrow> bool" where
  "HasSuffix s p = suffix p s"

definition Contains :: "string \<Rightarrow> string \<Rightarrow> bool" where
  "Contains s substr = sublist substr s"

definition TrimSuffix :: "string \<Rightarrow> string \<Rightarrow> string" where
  "TrimSuffix s suf = (if HasSuffix s suf then take (length s - length suf) s else s)"

text \<open>
  \<^verbatim>\<open>filepath.Ext\<close> scans the path from its end: it stops with the empty string at a
  separator and returns the suffix that starts at the first dot it meets.
\<close>

fun Ext_scan :: "string \<Rightarrow> string \<Rightarrow> string" where
  "Ext_scan [] acc = []"
| "Ext_scan (c # cs) acc =
     (if c = CHR ''/'' then []
      else if c = CHR ''.'' then c # acc
      else Ext_scan cs (c # acc))"

definition Ext :: "string \<Rightarrow> string" where
  "Ext path = Ext_scan (rev path) []"

text \<open>
  \<^verbatim>\<open>filepath.Base\<close>: the empty path gives \<^verbatim>\<open>.\<close>; trailing separators are stripped; the
  last element is what follows the last separator; a path of separators only gives
  \<^verbatim>\<open>/\<close>.
\<close>

definition stripTrailingSlashes :: "string \<Rightarrow> string" where
  "stripTrailingSlashes s = rev (dropWhile (\<lambda>c. c = CHR ''/'') (rev s))"

definition lastElement :: "string \<Rightarrow> string" where
  "lastElement p = rev (takeWhile (\<lambda>c. c \<noteq> CHR ''/'') (rev p))"

definition Base :: "string \<Rightarrow> string" where
  "Base path =
     (if path = [] then ''.''
      else let q = lastElement (stripTrailingSlashes path)
           in if q = [] then ''/'' else q)"

text \<open>
  \<^verbatim>\<open>filepath.Clean\<close>, on the elements of the path: empty elements and \<^verbatim>\<open>.\<close> are dropped,
  an inner \<^verbatim>\<open>..\<close> removes the element before it, a \<^verbatim>\<open>..\<close> at the start of a rooted
  path is dropped and one at the start of a relative path is kept; the empty result is
  \<^verbatim>\<open>.\<close>.
\<close>

fun splitSlash :: "string \<Rightarrow> string \<Rightarrow> string list" where
  "splitSlash [] cur = [rev cur]"
| "splitSlash (c # cs) cur =
     (if c = CHR ''/'' then rev cur # splitSlash cs [] else splitSlash cs (c # cur))"

fun joinSlash :: "string list \<Rightarrow> string" where
  "joinSlash [] = []"
| "joinSlash [x] = x"
| "joinSlash (x # y # ys) = x @ ''/'' @ joinSlash (y # ys)"

fun cleanElems :: "bool \<Rightarrow> string list \<Rightarrow> string list \<Rightarrow> string list" where
  "cleanElems rooted stack [] = rev stack"
| "cleanElems rooted stack (e # es) =
     (if e = [] \<or> e = ''.'' then cleanElems rooted stack es
      else if e = ''..'' then
        (case stack of
           [] \<Rightarrow> if rooted then cleanElems rooted [] es else cleanElems rooted [e] es
         | t # ts \<Rightarrow>
             if t = ''..'' then cleanElems rooted (e # stack) es
             else cleanElems rooted ts es)
      else cleanElems rooted (e # stack) es)"

definition Clean :: "string \<Rightarrow> string" where
  "Clean path =
     (let rooted = HasPrefix path ''/'';
          out = (if rooted then ''/'' else []) @ joinSlash (cleanElems rooted [] (splitSlash path []))
      in if out = [] then ''.'' else out)"

text \<open>
  \<^verbatim>\<open>filepath.Dir\<close> cleans the path up to and including its last separator;
  \<^verbatim>\<open>filepath.Join\<close> of two elements joins them from the first non-empty one with a
  separator and cleans the result.
\<close>

definition Dir :: "string \<Rightarrow> string" where
  "Dir path = Clean (rev (dropWhile (\<lambda>c. c \<noteq> CHR ''/'') (rev path)))"

definition Join :: "string \<Rightarrow> string \<Rightarrow> string" where
  "Join a b =
     (if a \<noteq> [] then Clean (a @ ''/'' @ b)
      else if b \<noteq> [] then Clean b
      else [])"

text \<open>\<^verbatim>\<open>fmt.Sprintf\<close> with \<^verbatim>\<open>%d\<close>: the decimal digits of a non-negative counter.\<close>

definition digitChar :: "nat \<Rightarrow> char" where
  "digitChar d = ''0123456789'' ! d"

fun showNat :: "nat \<Rightarrow> string" where
  "showNat n = (if n < 10 then [digitChar n] else showNat (n div 10) @ [digitChar (n mod 10)])"

declare showNat.simps [simp del]

section \<open>Configuration: rules\<close>

text \<open>
  \<^verbatim>\<open>config.Rule\<close>. Modelled from the spec: the field \<^verbatim>\<open>NameContainsAll\<close>, which the
  matcher in \<^verbatim>\<open>rules.go\<close> reads, is not declared by the \<^verbatim>\<open>Rule\<close> struct of
  \<^verbatim>\<open>config.go\<close>; it is a list of strings like the other three predicate fields
  (the spec's "name-contains-all list").
\<close>

record Rule =
  Name :: string
  Extensions :: "string list"
  NameContains :: "string list"
  NameContainsAll :: "string list"
  NameStartsWith :: "string list"
  Destination :: string
  ConflictStrategy :: string

section \<open>The rule matcher (rules.go)\<close>

fun matchesExtension :: "string \<Rightarrow> string list \<Rightarrow> bool" where
  "matchesExtension ext [] = False"
| "matchesExtension ext (ruleExt # rest) =
     (if ext = ToLower ruleExt then True else matchesExtension ext rest)"

fun matchesContains :: "string \<Rightarrow> string list \<Rightarrow> bool" where
  "matchesContains nameWithoutExt [] = False"
| "matchesContains nameWithoutExt (pattern # rest) =
     (if Contains nameWithoutExt (ToLower pattern) then True
      else matchesContains nameWithoutExt rest)"

fun matchesContainsAll :: "string \<Rightarrow> string list \<Rightarrow> bool" where
  "matchesContainsAll nameWithoutExt [] = True"
| "matchesContainsAll nameWithoutExt (pattern # rest) =
     (if \<not> Contains nameWithoutExt (ToLower pattern) then False
      else matchesContainsAll nameWithoutExt rest)"

fun matchesStartsWith :: "string \<Rightarrow> string list \<Rightarrow> bool" where
  "matchesStartsWith nameWithoutExt [] = False"
| "matchesStartsWith nameWithoutExt (pre # rest) =
     (if HasPrefix nameWithoutExt (ToLower pre) then True
      else matchesStartsWith nameWithoutExt rest)"

text \<open>
  The loop of \<^verbatim>\<open>MatchRule\<close> over the rules: each failed check is a \<^verbatim>\<open>continue\<close>, the
  rule that passes the four checks is returned, and the end of the list is \<^verbatim>\<open>nil\<close>.
\<close>

fun MatchRule_loop :: "string \<Rightarrow> string \<Rightarrow> Rule list \<Rightarrow> Rule option" where
  "MatchRule_loop ext nameWithoutExt [] = None"
| "MatchRule_loop ext nameWithoutExt (rule # rest) =
     (if \<not> (Extensions rule = [] \<or> matchesExtension ext (Extensions rule))
        then MatchRule_loop ext nameWithoutExt rest
      else if \<not> (NameContains rule = [] \<or> matchesContains nameWithoutExt (NameContains rule))
        then MatchRule_loop ext nameWithoutExt rest
      else if \<not> (NameContainsAll rule = []
                  \<or> matchesContainsAll nameWithoutExt (NameContainsAll rule))
        then MatchRule_loop ext nameWithoutExt rest
      else if \<not> (NameStartsWith rule = []
                  \<or> matchesStartsWith nameWithoutExt (NameStartsWith rule))
        then MatchRule_loop ext nameWithoutExt rest
      else Some rule)"

definition fileExt :: "string \<Rightarrow> string" where
  "fileExt filePath = ToLower (Ext (Base filePath))"

definition fileNameWithoutExt :: "string \<Rightarrow> string" where
  "fileNameWithoutExt filePath = ToLower (TrimSuffix (Base filePath) (fileExt filePath))"

definition MatchRule :: "string \<Rightarrow> Rule list \<Rightarrow> Rule option" where
  "MatchRule filePath rules =
     MatchRule_loop (fileExt filePath) (fileNameWithoutExt filePath) rules"


text \<open>
  The matcher as the design describes it, for comparison with the loop above: a rule
  holds for an extension and a name when each of its four predicate groups is empty or
  satisfied.
\<close>

definition ruleHolds :: "string \<Rightarrow> string \<Rightarrow> Rule \<Rightarrow> bool" where
  "ruleHolds ext nameWithoutExt rule =
     ((Extensions rule = [] \<or> list_ex (\<lambda>e. ext = ToLower e) (Extensions rule))
      \<and> (NameContains rule = []
           \<or> list_ex (\<lambda>p. Contains nameWithoutExt (ToLower p)) (NameContains rule))
      \<and> (NameContainsAll rule = []
           \<or> list_all (\<lambda>p. Contains nameWithoutExt (ToLower p)) (NameContainsAll rule))
      \<and> (NameStartsWith rule = []
           \<or> list_ex (\<lambda>p. HasPrefix nameWithoutExt (ToLower p)) (NameStartsWith rule)))"

text \<open>
  The name without extension as the design describes it: the lower-cased file name with
  its own extension removed.
\<close>

definition loweredStem :: "string \<Rightarrow> string" where
  "loweredStem filePath = ToLower (TrimSuffix (Base filePath) (Ext (Base filePath)))"

definition anyRule :: Rule where
  "anyRule = \<lparr>Rule.Name = ''any'', Extensions = [], NameContains = [], NameContainsAll = [],
     NameStartsWith = [], Destination = ''/out'', ConflictStrategy = ''rename''\<rparr>"

definition pdfReports :: Rule where
  "pdfReports = \<lparr>Rule.Name = ''reports'', Extensions = [''.Pdf''], NameContains = [],
     NameContainsAll = [], NameStartsWith = [''Report''], Destination = ''/out/reports'',
     ConflictStrategy = ''rename''\<rparr>"

definition pdfNamed :: Rule where
  "pdfNamed = \<lparr>Rule.Name = ''pdf in name'', Extensions = [], NameContains = [''pdf''],
     NameContainsAll = [], NameStartsWith = [], Destination = ''/out/named'',
     ConflictStrategy = ''rename''\<rparr>"


section \<open>The operating system as the organizer sees it\<close>

text \<open>
  The files are a map from path to node. A path is the key as it is written: the model
  does not identify two spellings of one location. An operation fails either because of
  the state of the files (a missing path is \<open>NotExist\<close>) or because the environment
  makes it fail: \<open>fault\<close> gives, for each operation, the error injected into it, if any.
  The classes of error are the ones the organizer tells apart: \<^verbatim>\<open>os.IsNotExist\<close>,
  \<^verbatim>\<open>os.IsPermission\<close>, an error whose text contains \<^verbatim>\<open>cross-device\<close>, and any other.
\<close>

datatype oserr = NotExist | Permission | CrossDevice | OtherErr

datatype node = Directory | RegularFile (content: string) (perm: nat)

type_synonym FS = "string \<Rightarrow> node option"

datatype syscall =
    OpStat string
  | OpMkdirAll string
  | OpRename string string
  | OpOpen string
  | OpCreate string
  | OpCopy string string
  | OpSync string
  | OpFstat string
  | OpChmod string
  | OpRemove string
  | OpWatch string
  | OpNewWatcher

text \<open>
  The environment: the fault injected into each operation, the number of bytes a failing
  copy has written when it stops, the size the system reports for a directory, the
  permission bits a newly created file gets, and the clock.
\<close>

record Time =
  year :: nat
  month :: nat
  day :: nat
  hour :: nat
  minute :: nat
  second :: nat

record Env =
  fault :: "syscall \<Rightarrow> oserr option"
  copied :: nat
  dirSize :: nat
  createPerm :: nat
  now :: Time

definition nodeSize :: "Env \<Rightarrow> node \<Rightarrow> nat" where
  "nodeSize env n = (case n of Directory \<Rightarrow> dirSize env | RegularFile c m \<Rightarrow> length c)"

definition isDir :: "node \<Rightarrow> bool" where
  "isDir n = (case n of Directory \<Rightarrow> True | RegularFile c m \<Rightarrow> False)"

definition os_Stat :: "Env \<Rightarrow> FS \<Rightarrow> string \<Rightarrow> oserr + node" where
  "os_Stat env fs p =
     (case fault env (OpStat p) of
        Some e \<Rightarrow> Inl e
      | None \<Rightarrow> (case fs p of None \<Rightarrow> Inl NotExist | Some n \<Rightarrow> Inr n))"

text \<open>
  \<^verbatim>\<open>os.MkdirAll\<close> creates the directory and every missing parent, and fails at a path
  that is a file, and on the empty path; what it created before failing stays.
\<close>

definition dirPrefixes :: "string \<Rightarrow> string list" where
  "dirPrefixes p =
     (let rooted = HasPrefix p ''/'';
          elems = cleanElems rooted [] (splitSlash p [])
      in map (\<lambda>k. (if rooted then ''/'' else []) @ joinSlash (take k elems))
           [1..<Suc (length elems)])"

fun mkdirs :: "FS \<Rightarrow> string list \<Rightarrow> oserr option \<times> FS" where
  "mkdirs fs [] = (None, fs)"
| "mkdirs fs (d # ds) =
     (case fs d of
        Some (RegularFile c m) \<Rightarrow> (Some OtherErr, fs)
      | Some Directory \<Rightarrow> mkdirs fs ds
      | None \<Rightarrow> mkdirs (fs(d \<mapsto> Directory)) ds)"

definition os_MkdirAll :: "Env \<Rightarrow> FS \<Rightarrow> string \<Rightarrow> oserr option \<times> FS" where
  "os_MkdirAll env fs p =
     (case fault env (OpMkdirAll p) of
        Some e \<Rightarrow> (Some e, fs)
      | None \<Rightarrow> if p = [] then (Some NotExist, fs) else mkdirs fs (dirPrefixes p))"

text \<open>Opening a path for reading gives the node that is there.\<close>

definition os_Open :: "Env \<Rightarrow> FS \<Rightarrow> string \<Rightarrow> oserr + node" where
  "os_Open env fs p =
     (case fault env (OpOpen p) of
        Some e \<Rightarrow> Inl e
      | None \<Rightarrow> (case fs p of None \<Rightarrow> Inl NotExist | Some n \<Rightarrow> Inr n))"

section \<open>Configuration and its validation (config.go)\<close>

record Settings =
  LogLevel :: string
  DelayBeforeMove :: string
  MaxWorkers :: int

record Monitor =
  Name :: string
  SourcePath :: string
  Recursive :: bool
  Rules :: "Rule list"

record Config =
  Settings :: Settings
  Monitors :: "Monitor list"

datatype verror =
    InvalidLogLevel string
  | InvalidDelayFormat string
  | NegativeDelay string
  | InvalidMaxWorkers int
  | NoMonitors
  | MonitorNoName nat
  | SourcePathMissing string string
  | MonitorNoRules string
  | RuleNoName string nat
  | NoMatchingCriterion string string
  | RuleNoDestination string string
  | InvalidConflictStrategy string string string
  | DestinationNotCreated string string oserr

definition validLogLevels :: "string list" where
  "validLogLevels = [''debug'', ''info'', ''warn'', ''error'']"

definition validStrategies :: "string list" where
  "validStrategies = [''rename'', ''overwrite'', ''skip'']"

text \<open>
  \<^verbatim>\<open>time.ParseDuration\<close> is a parameter: \<open>parse s\<close> is the duration in nanoseconds, or
  nothing when the text is not a duration.
\<close>

definition ParseDelayDuration :: "(string \<Rightarrow> int option) \<Rightarrow> Config \<Rightarrow> verror + int" where
  "ParseDelayDuration parse c =
     (case parse (DelayBeforeMove (Settings c)) of
        None \<Rightarrow> Inl (InvalidDelayFormat (DelayBeforeMove (Settings c)))
      | Some duration \<Rightarrow>
          if duration < 0 then Inl (NegativeDelay (DelayBeforeMove (Settings c)))
          else Inr duration)"

text \<open>The body of the loop over the rules of a monitor, for the rule number \<open>j\<close>.\<close>

definition validateRule :: "Env \<Rightarrow> string \<Rightarrow> nat \<Rightarrow> FS \<Rightarrow> Rule \<Rightarrow> verror option \<times> FS" where
  "validateRule env monitorName j fs rule =
     (if Rule.Name rule = [] then (Some (RuleNoName monitorName (j + 1)), fs)
      else if Extensions rule = [] \<and> NameContains rule = [] \<and> NameStartsWith rule = []
        then (Some (NoMatchingCriterion monitorName (Rule.Name rule)), fs)
      else if Destination rule = []
        then (Some (RuleNoDestination monitorName (Rule.Name rule)), fs)
      else if ConflictStrategy rule \<notin> set validStrategies
        then (Some (InvalidConflictStrategy monitorName (Rule.Name rule) (ConflictStrategy rule)), fs)
      else (case os_MkdirAll env fs (Destination rule) of
              (Some e, fs') \<Rightarrow> (Some (DestinationNotCreated monitorName (Rule.Name rule) e), fs')
            | (None, fs') \<Rightarrow> (None, fs')))"

fun validateRules :: "Env \<Rightarrow> string \<Rightarrow> nat \<Rightarrow> FS \<Rightarrow> Rule list \<Rightarrow> verror option \<times> FS" where
  "validateRules env monitorName j fs [] = (None, fs)"
| "validateRules env monitorName j fs (rule # rest) =
     (case validateRule env monitorName j fs rule of
        (Some e, fs') \<Rightarrow> (Some e, fs')
      | (None, fs') \<Rightarrow> validateRules env monitorName (j + 1) fs' rest)"

fun validateMonitors :: "Env \<Rightarrow> nat \<Rightarrow> FS \<Rightarrow> Monitor list \<Rightarrow> verror option \<times> FS" where
  "validateMonitors env i fs [] = (None, fs)"
| "validateMonitors env i fs (monitor # rest) =
     (if Monitor.Name monitor = [] then (Some (MonitorNoName (i + 1)), fs)
      else if os_Stat env fs (SourcePath monitor) = Inl NotExist
        then (Some (SourcePathMissing (Monitor.Name monitor) (SourcePath monitor)), fs)
      else if Monitor.Rules monitor = [] then (Some (MonitorNoRules (Monitor.Name monitor)), fs)
      else (case validateRules env (Monitor.Name monitor) 0 fs (Monitor.Rules monitor) of
              (Some e, fs') \<Rightarrow> (Some e, fs')
            | (None, fs') \<Rightarrow> validateMonitors env (i + 1) fs' rest))"

definition Validate ::
  "(string \<Rightarrow> int option) \<Rightarrow> Env \<Rightarrow> FS \<Rightarrow> Config \<Rightarrow> verror option \<times> FS" where
  "Validate parse env fs c =
     (if LogLevel (Settings c) \<notin> set validLogLevels
        then (Some (InvalidLogLevel (LogLevel (Settings c))), fs)
      else case ParseDelayDuration parse c of
        Inl e \<Rightarrow> (Some e, fs)
      | Inr d \<Rightarrow>
          if MaxWorkers (Settings c) \<le> 0
            then (Some (InvalidMaxWorkers (MaxWorkers (Settings c))), fs)
          else if Monitors c = [] then (Some NoMonitors, fs)
          else validateMonitors env 0 fs (Monitors c))"

text \<open>The criterion the validation asks of a rule.\<close>

definition hasCriterion :: "Rule \<Rightarrow> bool" where
  "hasCriterion r = (Extensions r \<noteq> [] \<or> NameContains r \<noteq> [] \<or> NameStartsWith r \<noteq> [])"

text \<open>Example inputs: an environment without faults, a source directory, two rules.\<close>

definition noon :: Time where
  "noon = \<lparr>year = 2026, month = 1, day = 22, hour = 12, minute = 0, second = 5\<rparr>"

definition noFaults :: Env where
  "noFaults = \<lparr>fault = (\<lambda>x. None), copied = 0, dirSize = 4096, createPerm = 420,
     now = noon\<rparr>"

definition inboxOnly :: FS where
  "inboxOnly = Map.empty(''/in'' \<mapsto> Directory)"

definition parseTwoSeconds :: "string \<Rightarrow> int option" where
  "parseTwoSeconds s = (if s = ''2s'' then Some 2000000000 else None)"

definition allOfRule :: Rule where
  "allOfRule = \<lparr>Rule.Name = ''all of'', Extensions = [], NameContains = [],
     NameContainsAll = [''invoice'', ''2024''], NameStartsWith = [],
     Destination = ''/out/invoices'', ConflictStrategy = ''rename''\<rparr>"

definition configOf :: "Rule list \<Rightarrow> Config" where
  "configOf rules =
     \<lparr>Settings = \<lparr>LogLevel = ''info'', DelayBeforeMove = ''2s'', MaxWorkers = 4\<rparr>,
      Monitors = [\<lparr>Monitor.Name = ''inbox'', SourcePath = ''/in'', Recursive = True,
                   Monitor.Rules = rules\<rparr>]\<rparr>"

section \<open>The directory watcher (watcher.go)\<close>

text \<open>
  An \<^verbatim>\<open>fsnotify\<close> event is a path and a set of operation bits, one bit per operation in
  the library's order: create, write, remove, rename, chmod.
\<close>

type_synonym Op = "32 word"

definition Create :: Op where "Create = 1"
definition Write :: Op where "Write = 2"
definition Remove :: Op where "Remove = 4"
definition Rename :: Op where "Rename = 8"
definition Chmod :: Op where "Chmod = 16"

record Event =
  Name :: string
  Op :: Op

record Job =
  FilePath :: string
  Rules :: "Rule list"

text \<open>
  What an operation of the organizer does besides returning: the entries it logs (level
  and message), the pauses it makes, its attempts to open a file, and the jobs it sends
  to the worker pool, in the order they happen.
\<close>

datatype level = Debug | Info | Warn | Error

datatype effect =
    Logged level string
  | Slept int
  | OpenAttempt string
  | Submitted Job

text \<open>
  Time passes while the watcher waits, and other processes write and release files
  meanwhile: the files and the environment of the \<open>i\<close>-th attempt of a readiness check
  are \<open>tline i\<close>.
\<close>

type_synonym timeline = "nat \<Rightarrow> Env \<times> FS"

record FileWatcher =
  config :: Monitor
  delay :: int
  watcher :: "string set"

definition maxRetries :: nat where
  "maxRetries = 3"

function IsFileReady_loop :: "timeline \<Rightarrow> int \<Rightarrow> string \<Rightarrow> nat \<Rightarrow> bool \<times> effect list" where
  "IsFileReady_loop tline d path i =
     (if i < maxRetries then
        (case os_Open (fst (tline i)) (snd (tline i)) path of
           Inr file \<Rightarrow>
             (case os_Stat (fst (tline i)) (snd (tline i)) path of
                Inl err \<Rightarrow>
                  (False, [OpenAttempt path, Logged Debug ''File disappeared during check''])
              | Inr fileInfo \<Rightarrow>
                  (True, OpenAttempt path #
                     (if nodeSize (fst (tline i)) fileInfo = 0
                      then [Logged Debug ''File has zero size''] else [])))
         | Inl err \<Rightarrow>
             if err = NotExist \<or> err = Permission
               then (False, [OpenAttempt path, Logged Debug ''File not accessible''])
             else
               (case IsFileReady_loop tline d path (i + 1) of
                  (ready, rest) \<Rightarrow>
                    (ready, OpenAttempt path #
                       (if i < maxRetries - 1
                        then [Logged Debug ''File busy, retrying...'', Slept d] else [])
                       @ rest)))
      else (False, []))"
  by pat_completeness auto
termination
  by (relation "measure (\<lambda>(tline, d, path, i). maxRetries - i)") auto

declare IsFileReady_loop.simps [simp del]

definition IsFileReady :: "FileWatcher \<Rightarrow> timeline \<Rightarrow> string \<Rightarrow> bool \<times> effect list" where
  "IsFileReady fw tline path = IsFileReady_loop tline (delay fw) path 0"

text \<open>An attempt is busy when the open fails for a reason other than a missing or
  inaccessible file.\<close>

definition busyAt :: "timeline \<Rightarrow> string \<Rightarrow> nat \<Rightarrow> bool" where
  "busyAt tline path i =
     (case os_Open (fst (tline i)) (snd (tline i)) path of
        Inl e \<Rightarrow> e \<noteq> NotExist \<and> e \<noteq> Permission
      | Inr file \<Rightarrow> False)"

definition busyRetry :: "string \<Rightarrow> int \<Rightarrow> effect list" where
  "busyRetry path d = [OpenAttempt path, Logged Debug ''File busy, retrying...'', Slept d]"

definition tempExtensions :: "string list" where
  "tempExtensions = [''.tmp'', ''.temp'', ''.crdownload'', ''.part'', ''.download'', ''.partial'']"

definition isTempFile :: "string \<Rightarrow> bool" where
  "isTempFile filename = list_ex (\<lambda>ext. HasSuffix (ToLower filename) ext) tempExtensions"

text \<open>
  \<^verbatim>\<open>fsnotify\<close>'s \<^verbatim>\<open>Add\<close> subscribes to a path that exists, unless the environment makes it
  fail.
\<close>

definition watcher_Add :: "Env \<Rightarrow> FS \<Rightarrow> string set \<Rightarrow> string \<Rightarrow> oserr + string set" where
  "watcher_Add env fs w p =
     (case fault env (OpWatch p) of
        Some e \<Rightarrow> Inl e
      | None \<Rightarrow> (case fs p of None \<Rightarrow> Inl NotExist | Some n \<Rightarrow> Inr (insert p w)))"

definition handleEvent :: "FileWatcher \<Rightarrow> timeline \<Rightarrow> Event \<Rightarrow> FileWatcher \<times> effect list" where
  "handleEvent fw tline event =
     (if Op event AND Chmod = Chmod then (fw, [])
      else if Op event AND Create \<noteq> Create \<and> Op event AND Write \<noteq> Write then (fw, [])
      else
        (case os_Stat (fst (tline 0)) (snd (tline 0)) (Event.Name event) of
           Inl err \<Rightarrow> (fw, if err \<noteq> NotExist then [Logged Warn ''Failed to stat file''] else [])
         | Inr fileInfo \<Rightarrow>
             if isDir fileInfo then
               (if Recursive (config fw) \<and> Op event AND Create = Create then
                  (case watcher_Add (fst (tline 0)) (snd (tline 0)) (watcher fw) (Event.Name event) of
                     Inl err \<Rightarrow> (fw, [Logged Warn ''Failed to watch new subdirectory''])
                   | Inr w \<Rightarrow>
                       (fw\<lparr>watcher := w\<rparr>, [Logged Debug ''Now watching new subdirectory'']))
                else (fw, []))
             else
               (let filename = Base (Event.Name event) in
                if HasPrefix filename ''.'' then (fw, [Logged Debug ''Ignoring hidden file''])
                else if isTempFile filename then (fw, [Logged Debug ''Ignoring temporary file''])
                else
                  (case IsFileReady fw tline (Event.Name event) of
                     (ready, checks) \<Rightarrow>
                       (fw, Logged Debug ''File event detected'' # checks
                          @ [if ready then Logged Info ''File ready for processing''
                             else Logged Warn ''File not ready or locked''])))))"

text \<open>
  \<^verbatim>\<open>filepath.Walk\<close> calls the function once for every entry of the tree, the root first,
  with the entry's path and either its information or the error of reading it. The
  function of \<open>addPath\<close> never asks to skip or to stop, so the entries visited depend on
  the tree only: they are the parameter \<open>visits\<close>.
\<close>

definition walkFn ::
  "Env \<Rightarrow> FS \<Rightarrow> string \<Rightarrow> FileWatcher \<times> effect list \<Rightarrow> string \<times> (oserr + node)
     \<Rightarrow> FileWatcher \<times> effect list" where
  "walkFn env fs path acc visit =
     (case acc of (fw, done) \<Rightarrow>
        (case visit of
           (walkPath, Inl err) \<Rightarrow> (fw, done @ [Logged Warn ''Error walking path''])
         | (walkPath, Inr info) \<Rightarrow>
             if isDir info \<and> \<not> HasPrefix (Base walkPath) ''.'' then
               (if walkPath \<noteq> path then
                  (case watcher_Add env fs (watcher fw) walkPath of
                     Inl err \<Rightarrow> (fw, done @ [Logged Warn ''Failed to watch subdirectory''])
                   | Inr w \<Rightarrow> (fw\<lparr>watcher := w\<rparr>, done @ [Logged Debug ''Watching subdirectory'']))
                else (fw, done))
             else (fw, done)))"

definition addPath ::
  "FileWatcher \<Rightarrow> Env \<Rightarrow> FS \<Rightarrow> (string \<times> (oserr + node)) list \<Rightarrow> string \<Rightarrow> bool
     \<Rightarrow> oserr + FileWatcher \<times> effect list" where
  "addPath fw env fs visits path recursive =
     (case watcher_Add env fs (watcher fw) path of
        Inl err \<Rightarrow> Inl err
      | Inr w \<Rightarrow>
          if recursive
            then Inr (foldl (walkFn env fs path) (fw\<lparr>watcher := w\<rparr>, [Logged Debug ''Watching path'']) visits)
          else Inr (fw\<lparr>watcher := w\<rparr>, [Logged Debug ''Watching path'']))"

datatype watcherError = CreateWatcherFailed oserr | WatchPathFailed oserr

definition NewFileWatcher ::
  "Monitor \<Rightarrow> int \<Rightarrow> Env \<Rightarrow> FS \<Rightarrow> (string \<times> (oserr + node)) list
     \<Rightarrow> watcherError + FileWatcher \<times> effect list" where
  "NewFileWatcher monitor d env fs visits =
     (case fault env OpNewWatcher of
        Some e \<Rightarrow> Inl (CreateWatcherFailed e)
      | None \<Rightarrow>
          (case addPath \<lparr>config = monitor, delay = d, watcher = {}\<rparr> env fs visits
                  (SourcePath monitor) (Recursive monitor) of
             Inl e \<Rightarrow> Inl (WatchPathFailed e)
           | Inr started \<Rightarrow> Inr started))"

text \<open>
  The worker pool's queue is a channel of capacity twice the number of workers.
  \<open>Submit\<close> sends without waiting when there is room; on a full channel it logs a warning
  and waits in the send, which is the result \<open>Waiting\<close>.
\<close>

record WorkerPool =
  jobsCh :: "Job list"
  workers :: nat

datatype 'a sent = Sent 'a | Waiting 'a

definition NewWorkerPool :: "nat \<Rightarrow> WorkerPool" where
  "NewWorkerPool n = \<lparr>jobsCh = [], workers = n\<rparr>"

definition Submit :: "WorkerPool \<Rightarrow> Job \<Rightarrow> (WorkerPool \<times> effect list) sent" where
  "Submit wp job =
     (if length (jobsCh wp) < workers wp * 2
        then Sent (wp\<lparr>jobsCh := jobsCh wp @ [job]\<rparr>,
                   [Submitted job, Logged Debug ''Job submitted to worker pool''])
      else Waiting (wp, [Logged Warn ''Worker pool channel full, job may be delayed'']))"

text \<open>Example inputs for the watcher.\<close>

definition inboxMonitor :: Monitor where
  "inboxMonitor = \<lparr>Monitor.Name = ''inbox'', SourcePath = ''/in'', Recursive = True,
     Monitor.Rules = [pdfReports]\<rparr>"

definition inboxWatcher :: FileWatcher where
  "inboxWatcher = \<lparr>config = inboxMonitor, delay = 2000000000, watcher = {''/in''}\<rparr>"

definition inboxFiles :: FS where
  "inboxFiles = Map.empty(''/in'' \<mapsto> Directory, ''/in/.cache'' \<mapsto> Directory,
     ''/in/a.pdf'' \<mapsto> RegularFile ''%PDF'' 420, ''/in/empty.txt'' \<mapsto> RegularFile [] 420,
     ''/in/.hidden'' \<mapsto> RegularFile ''x'' 420, ''/in/sub'' \<mapsto> Directory)"

definition still :: "Env \<Rightarrow> FS \<Rightarrow> timeline" where
  "still env fs = (\<lambda>i. (env, fs))"

definition failing :: "syscall \<Rightarrow> oserr \<Rightarrow> Env" where
  "failing call e = noFaults\<lparr>fault := (\<lambda>x. if x = call then Some e else None)\<rparr>"

definition inboxVisits :: "(string \<times> (oserr + node)) list" where
  "inboxVisits = [(''/in'', Inr Directory), (''/in/.cache'', Inr Directory),
     (''/in/.hidden'', Inr (RegularFile ''x'' 420)), (''/in/a.pdf'', Inr (RegularFile ''%PDF'' 420)),
     (''/in/empty.txt'', Inr (RegularFile [] 420)), (''/in/sub'', Inr Directory)]"

section \<open>The conflict-resolving mover (mover.go)\<close>

text \<open>
  The remaining operations on files. A rename moves the node to the new path and
  replaces a file that is there; the mover renames regular files only. Creating a file
  truncates one that exists. A copy that fails has written the first \<open>copied\<close> bytes.
\<close>

definition os_Rename :: "Env \<Rightarrow> FS \<Rightarrow> string \<Rightarrow> string \<Rightarrow> oserr option \<times> FS" where
  "os_Rename env fs old new =
     (case fault env (OpRename old new) of
        Some e \<Rightarrow> (Some e, fs)
      | None \<Rightarrow>
          (case fs old of
             None \<Rightarrow> (Some NotExist, fs)
           | Some n \<Rightarrow>
               if old = new then (None, fs)
               else if fs new = Some Directory then (Some OtherErr, fs)
               else (None, fs(new \<mapsto> n, old := None))))"

definition os_Remove :: "Env \<Rightarrow> FS \<Rightarrow> string \<Rightarrow> oserr option \<times> FS" where
  "os_Remove env fs p =
     (case fault env (OpRemove p) of
        Some e \<Rightarrow> (Some e, fs)
      | None \<Rightarrow> (case fs p of None \<Rightarrow> (Some NotExist, fs) | Some n \<Rightarrow> (None, fs(p := None))))"

definition os_Create :: "Env \<Rightarrow> FS \<Rightarrow> string \<Rightarrow> oserr option \<times> FS" where
  "os_Create env fs p =
     (case fault env (OpCreate p) of
        Some e \<Rightarrow> (Some e, fs)
      | None \<Rightarrow>
          (case fs p of
             None \<Rightarrow> (None, fs(p \<mapsto> RegularFile [] (createPerm env)))
           | Some Directory \<Rightarrow> (Some OtherErr, fs)
           | Some (RegularFile c m) \<Rightarrow> (None, fs(p \<mapsto> RegularFile [] m))))"

definition os_Chmod :: "Env \<Rightarrow> FS \<Rightarrow> string \<Rightarrow> nat \<Rightarrow> oserr option \<times> FS" where
  "os_Chmod env fs p mode =
     (case fault env (OpChmod p) of
        Some e \<Rightarrow> (Some e, fs)
      | None \<Rightarrow>
          (case fs p of
             None \<Rightarrow> (Some NotExist, fs)
           | Some Directory \<Rightarrow> (None, fs)
           | Some (RegularFile c m) \<Rightarrow> (None, fs(p \<mapsto> RegularFile c mode))))"

definition writeContent :: "FS \<Rightarrow> string \<Rightarrow> string \<Rightarrow> FS" where
  "writeContent fs p bytes =
     (case fs p of
        Some (RegularFile c m) \<Rightarrow> fs(p \<mapsto> RegularFile bytes m)
      | Some Directory \<Rightarrow> fs
      | None \<Rightarrow> fs)"

definition io_Copy :: "Env \<Rightarrow> FS \<Rightarrow> string \<Rightarrow> string \<Rightarrow> oserr option \<times> FS" where
  "io_Copy env fs dst src =
     (case fs src of
        Some (RegularFile c m) \<Rightarrow>
          (case fault env (OpCopy dst src) of
             Some e \<Rightarrow> (Some e, writeContent fs dst (take (copied env) c))
           | None \<Rightarrow> (None, writeContent fs dst c))
      | Some Directory \<Rightarrow> (Some OtherErr, fs)
      | None \<Rightarrow> (Some OtherErr, fs))"

text \<open>
  The time in the layout \<^verbatim>\<open>20060102_150405\<close>: year, month, day, an underscore, hour,
  minute, second, each padded with zeros to its width.
\<close>

definition pad :: "nat \<Rightarrow> nat \<Rightarrow> string" where
  "pad width n = replicate (width - length (showNat n)) CHR ''0'' @ showNat n"

definition formatTimestamp :: "Time \<Rightarrow> string" where
  "formatTimestamp t =
     pad 4 (year t) @ pad 2 (month t) @ pad 2 (day t) @ ''_''
       @ pad 2 (hour t) @ pad 2 (minute t) @ pad 2 (second t)"

datatype copyError =
    OpenSourceFailed oserr
  | CreateDestFailed oserr
  | CopyContentFailed oserr
  | SyncFailed oserr

datatype moveError =
    StatSourceFailed oserr
  | MkdirFailed oserr
  | UnknownStrategy string
  | CopyFailed copyError
  | MoveFailed oserr

text \<open>The name with the counter, and the name with the time, that replace an occupied one.\<close>

definition counterName :: "string \<Rightarrow> nat \<Rightarrow> string" where
  "counterName destPath counter =
     Join (Dir destPath)
       (TrimSuffix (Base destPath) (Ext destPath) @ ''_'' @ showNat counter @ Ext destPath)"

definition timestampName :: "Env \<Rightarrow> string \<Rightarrow> string" where
  "timestampName env destPath =
     Join (Dir destPath)
       (TrimSuffix (Base destPath) (Ext destPath) @ ''_'' @ formatTimestamp (now env)
          @ Ext destPath)"

function generateUniqueName_loop :: "Env \<Rightarrow> FS \<Rightarrow> string \<Rightarrow> nat \<Rightarrow> string" where
  "generateUniqueName_loop env fs destPath counter =
     (if os_Stat env fs (counterName destPath counter) = Inl NotExist
        then counterName destPath counter
      else if counter + 1 > 1000 then timestampName env destPath
      else generateUniqueName_loop env fs destPath (counter + 1))"
  by pat_completeness auto
termination
  by (relation "measure (\<lambda>(env, fs, destPath, counter). 1000 - counter)") auto

declare generateUniqueName_loop.simps [simp del]

definition generateUniqueName :: "Env \<Rightarrow> FS \<Rightarrow> string \<Rightarrow> string" where
  "generateUniqueName env fs destPath = generateUniqueName_loop env fs destPath 1"

definition handleConflict :: "Env \<Rightarrow> FS \<Rightarrow> string \<Rightarrow> string \<Rightarrow> moveError + string \<times> effect list" where
  "handleConflict env fs destPath strategy =
     (if strategy = ''overwrite''
        then Inr (destPath, [Logged Debug ''Existing file will be overwritten''])
      else if strategy = ''rename''
        then Inr (generateUniqueName env fs destPath,
                  [Logged Debug ''File renamed to avoid conflict''])
      else Inl (UnknownStrategy strategy))"

definition copyFile :: "Env \<Rightarrow> FS \<Rightarrow> string \<Rightarrow> string \<Rightarrow> copyError option \<times> FS" where
  "copyFile env fs sourcePath destPath =
     (case os_Open env fs sourcePath of
        Inl e \<Rightarrow> (Some (OpenSourceFailed e), fs)
      | Inr sourceFile \<Rightarrow>
          (case os_Create env fs destPath of
             (Some e, fs1) \<Rightarrow> (Some (CreateDestFailed e), fs1)
           | (None, fs1) \<Rightarrow>
               (case io_Copy env fs1 destPath sourcePath of
                  (Some e, fs2) \<Rightarrow>
                    (Some (CopyContentFailed e), snd (os_Remove env fs2 destPath))
                | (None, fs2) \<Rightarrow>
                    (case fault env (OpSync destPath) of
                       Some e \<Rightarrow> (Some (SyncFailed e), fs2)
                     | None \<Rightarrow>
                         (case fault env (OpFstat sourcePath) of
                            Some e \<Rightarrow> (None, fs2)
                          | None \<Rightarrow>
                              (case fs2 sourcePath of
                                 Some (RegularFile c m) \<Rightarrow>
                                   (None, snd (os_Chmod env fs2 destPath m))
                               | Some Directory \<Rightarrow> (None, fs2)
                               | None \<Rightarrow> (None, fs2)))))))"

text \<open>
  The body of \<open>MoveFile\<close> in its two halves. The first computes the destination path:
  the conflict strategy is applied when the stat of the path succeeds. The second
  renames, and on an error whose text contains \<^verbatim>\<open>cross-device\<close> (the class
  \<open>CrossDevice\<close>) copies the file and removes the source.
\<close>

definition resolveDestination ::
  "Env \<Rightarrow> FS \<Rightarrow> string \<Rightarrow> string \<Rightarrow> moveError + string \<times> effect list" where
  "resolveDestination env fs destPath conflictStrategy =
     (case os_Stat env fs destPath of
        Inr info \<Rightarrow>
          (case handleConflict env fs destPath conflictStrategy of
             Inl err \<Rightarrow> Inl err
           | Inr (newPath, logs) \<Rightarrow>
               Inr (newPath,
                    Logged Debug ''Destination file already exists, applying conflict strategy''
                      # logs))
      | Inl statErr \<Rightarrow> Inr (destPath, []))"

definition relocate ::
  "Env \<Rightarrow> FS \<Rightarrow> string \<Rightarrow> string \<Rightarrow> moveError option \<times> FS \<times> effect list" where
  "relocate env fs sourcePath destPath =
     (case os_Rename env fs sourcePath destPath of
        (None, fs1) \<Rightarrow>
          (None, fs1, [Logged Debug ''Attempting to move file'',
                       Logged Info ''File moved successfully''])
      | (Some err, fs1) \<Rightarrow>
          if err = CrossDevice then
            (case copyFile env fs1 sourcePath destPath of
               (Some cerr, fs2) \<Rightarrow>
                 (Some (CopyFailed cerr), fs2,
                  [Logged Debug ''Attempting to move file'',
                   Logged Debug ''Cross-device move detected, using copy+delete''])
             | (None, fs2) \<Rightarrow>
                 (case os_Remove env fs2 sourcePath of
                    (Some rerr, fs3) \<Rightarrow>
                      (None, fs3,
                       [Logged Debug ''Attempting to move file'',
                        Logged Debug ''Cross-device move detected, using copy+delete'',
                        Logged Warn ''Failed to remove source file after copy'',
                        Logged Info ''File moved successfully''])
                  | (None, fs3) \<Rightarrow>
                      (None, fs3,
                       [Logged Debug ''Attempting to move file'',
                        Logged Debug ''Cross-device move detected, using copy+delete'',
                        Logged Info ''File moved successfully''])))
          else (Some (MoveFailed err), fs1, [Logged Debug ''Attempting to move file'']))"

definition startLogs :: "effect list" where
  "startLogs = [Logged Debug ''Starting file move'',
                Logged Debug ''Ensuring destination directory exists'']"

definition MoveFile ::
  "Env \<Rightarrow> FS \<Rightarrow> string \<Rightarrow> string \<Rightarrow> string \<Rightarrow> moveError option \<times> FS \<times> effect list" where
  "MoveFile env fs sourcePath destDir conflictStrategy =
     (case os_Stat env fs sourcePath of
        Inl err \<Rightarrow>
          if err = NotExist
            then (None, fs, [Logged Warn ''Source file no longer exists, skipping''])
          else (Some (StatSourceFailed err), fs, [])
      | Inr sourceInfo \<Rightarrow>
          if isDir sourceInfo
            then (None, fs, [Logged Warn ''Source is a directory, not a file, skipping''])
          else
            (case os_MkdirAll env fs destDir of
               (Some err, fs1) \<Rightarrow> (Some (MkdirFailed err), fs1, startLogs)
             | (None, fs1) \<Rightarrow>
                 (case resolveDestination env fs1 (Join destDir (Base sourcePath))
                         conflictStrategy of
                    Inl err \<Rightarrow>
                      (Some err, fs1,
                       startLogs @
                         [Logged Debug ''Destination directory ready'',
                          Logged Debug
                            ''Destination file already exists, applying conflict strategy''])
                  | Inr (destPath, conflictLogs) \<Rightarrow>
                      (case relocate env fs1 sourcePath destPath of
                         (result, fs2, moveLogs) \<Rightarrow>
                           (result, fs2,
                            startLogs @ [Logged Debug ''Destination directory ready'']
                              @ conflictLogs @ moveLogs)))))"

text \<open>Example inputs for the mover.\<close>

definition disk :: FS where
  "disk = Map.empty(''/in'' \<mapsto> Directory, ''/in/a.pdf'' \<mapsto> RegularFile ''new'' 384,
     ''/out'' \<mapsto> Directory, ''/out/a.pdf'' \<mapsto> RegularFile ''old'' 420,
     ''/out/a_1.pdf'' \<mapsto> RegularFile ''older'' 420,
     ''/in/b.txt'' \<mapsto> RegularFile ''hello world'' 384)"

definition crowded :: FS where
  "crowded = (\<lambda>p. if p = ''/in/a.pdf'' then Some (RegularFile ''new'' 384)
     else if p = ''/in'' \<or> p = ''/out'' then Some Directory
     else Some (RegularFile ''taken'' 420))"

definition crossDevice :: "string \<Rightarrow> string \<Rightarrow> syscall list \<Rightarrow> Env" where
  "crossDevice src dst failures =
     noFaults\<lparr>fault := (\<lambda>x. if x = OpRename src dst then Some CrossDevice
                            else if x \<in> set failures then Some OtherErr else None),
              copied := 5\<rparr>"

text \<open>The entries logged by a move that falls back to copying, up to its last ones.\<close>

definition crossDeviceLogs :: "effect list \<Rightarrow> effect list \<Rightarrow> effect list" where
  "crossDeviceLogs conflictLogs lastLogs =
     startLogs @ [Logged Debug ''Destination directory ready''] @ conflictLogs
       @ [Logged Debug ''Attempting to move file'',
          Logged Debug ''Cross-device move detected, using copy+delete'']
       @ lastLogs"

section \<open>Properties of the rule matcher\<close>

lemma matchesExtension_list_ex:
  "matchesExtension ext es = list_ex (\<lambda>e. ext = ToLower e) es"
  by (induction es) simp_all

lemma matchesContains_list_ex:
  "matchesContains n ps = list_ex (\<lambda>p. Contains n (ToLower p)) ps"
  by (induction ps) simp_all

lemma matchesContainsAll_list_all:
  "matchesContainsAll n ps = list_all (\<lambda>p. Contains n (ToLower p)) ps"
  by (induction ps) simp_all

lemma matchesStartsWith_list_ex:
  "matchesStartsWith n ps = list_ex (\<lambda>p. HasPrefix n (ToLower p)) ps"
  by (induction ps) simp_all

lemma MatchRule_loop_find:
  "MatchRule_loop ext n rules = find (ruleHolds ext n) rules"
proof (induction rules)
  case Nil
  show ?case by simp
next
  case (Cons rule rest)
  show ?case
  proof (cases "ruleHolds ext n rule")
    case True
    then show ?thesis
      by (simp add: ruleHolds_def matchesExtension_list_ex matchesContains_list_ex
          matchesContainsAll_list_all matchesStartsWith_list_ex)
  next
    case False
    have "MatchRule_loop ext n (rule # rest) = MatchRule_loop ext n rest"
      using False
      by (auto simp add: ruleHolds_def matchesExtension_list_ex matchesContains_list_ex
          matchesContainsAll_list_all matchesStartsWith_list_ex)
    with False Cons.IH show ?thesis by simp
  qed
qed

lemma find_first_index:
  "find P xs = Some x \<longleftrightarrow>
     (\<exists>i<length xs. xs ! i = x \<and> P (xs ! i) \<and> (\<forall>j<i. \<not> P (xs ! j)))"
  by (auto simp add: find_Some_iff)

lemma ruleHolds_no_predicates:
  assumes "Extensions r = []" and "NameContains r = []"
    and "NameContainsAll r = []" and "NameStartsWith r = []"
  shows "ruleHolds ext n r"
  using assms by (simp add: ruleHolds_def)

text \<open>
  C3. For every file path and every ordered rule list, \<open>MatchRule\<close> returns the first
  rule of the list, in list order, whose predicate groups are each empty or satisfied:
  it returns the rule at an index \<open>i\<close> exactly when that rule holds and no rule at a
  smaller index does, and it returns nothing exactly when no rule of the list holds.
  A rule whose four predicate fields are all empty holds for any file, so at the head of
  a list it is the one returned.
\<close>

theorem MatchRule_first_match:
  "MatchRule filePath rules
     = find (ruleHolds (fileExt filePath) (fileNameWithoutExt filePath)) rules
   \<and> (MatchRule filePath rules = None
        \<longleftrightarrow> \<not> list_ex (ruleHolds (fileExt filePath) (fileNameWithoutExt filePath)) rules)
   \<and> (\<forall>r. MatchRule filePath rules = Some r \<longleftrightarrow>
        (\<exists>i<length rules. rules ! i = r
           \<and> ruleHolds (fileExt filePath) (fileNameWithoutExt filePath) (rules ! i)
           \<and> (\<forall>j<i. \<not> ruleHolds (fileExt filePath) (fileNameWithoutExt filePath) (rules ! j))))
   \<and> (Extensions r0 = [] \<and> NameContains r0 = [] \<and> NameContainsAll r0 = []
        \<and> NameStartsWith r0 = [] \<longrightarrow> MatchRule filePath (r0 # rest) = Some r0)"
proof -
  let ?P = "ruleHolds (fileExt filePath) (fileNameWithoutExt filePath)"
  have eq: "\<And>rs. MatchRule filePath rs = find ?P rs"
    by (simp add: MatchRule_def MatchRule_loop_find)
  have none: "MatchRule filePath rules = None \<longleftrightarrow> \<not> list_ex ?P rules"
    by (auto simp add: eq find_None_iff list_ex_iff)
  have some: "\<forall>r. MatchRule filePath rules = Some r \<longleftrightarrow>
        (\<exists>i<length rules. rules ! i = r \<and> ?P (rules ! i) \<and> (\<forall>j<i. \<not> ?P (rules ! j)))"
    by (simp only: eq find_first_index) simp
  have vac: "Extensions r0 = [] \<and> NameContains r0 = [] \<and> NameContainsAll r0 = []
        \<and> NameStartsWith r0 = [] \<longrightarrow> MatchRule filePath (r0 # rest) = Some r0"
    by (simp add: eq ruleHolds_no_predicates)
  from eq none some vac show ?thesis by blast
qed

theorem MatchRule_first_match_witness:
  "MatchRule ''/in/REPORT.pdf'' [pdfNamed, pdfReports, anyRule] = Some pdfReports
   \<and> MatchRule ''/in/notes.txt'' [pdfNamed, pdfReports] = None
   \<and> MatchRule ''/in/notes.txt'' [anyRule, pdfReports] = Some anyRule"
proof -
  have a: "find (ruleHolds (fileExt ''/in/REPORT.pdf'') (fileNameWithoutExt ''/in/REPORT.pdf''))
             [pdfNamed, pdfReports, anyRule] = Some pdfReports"
    by code_simp
  have b: "\<not> list_ex (ruleHolds (fileExt ''/in/notes.txt'') (fileNameWithoutExt ''/in/notes.txt''))
             [pdfNamed, pdfReports]"
    by code_simp
  have c: "Extensions anyRule = [] \<and> NameContains anyRule = [] \<and> NameContainsAll anyRule = []
        \<and> NameStartsWith anyRule = []"
    by (simp add: anyRule_def)
  from a b c
    MatchRule_first_match [of "''/in/REPORT.pdf''" "[pdfNamed, pdfReports, anyRule]"]
    MatchRule_first_match [of "''/in/notes.txt''" "[pdfNamed, pdfReports]"]
    MatchRule_first_match [of "''/in/notes.txt''" _ anyRule "[pdfReports]"]
  show ?thesis by metis
qed

text \<open>
  Where the extension of the file is already in lower case, the name the matcher uses
  is the lower-cased name without its extension.
\<close>

lemma fileNameWithoutExt_lower_ext:
  assumes "ToLower (Ext (Base filePath)) = Ext (Base filePath)"
  shows "fileNameWithoutExt filePath = loweredStem filePath"
  using assms by (simp add: fileNameWithoutExt_def loweredStem_def fileExt_def)

text \<open>
  C2. The comparisons are made in lower case, and the extension is compared with its
  leading dot: \<^verbatim>\<open>REPORT.PDF\<close> matches a rule with extension \<^verbatim>\<open>.Pdf\<close> and prefix
  \<^verbatim>\<open>Report\<close>. The name predicates, however, are not evaluated against the name with its
  extension removed when the extension has an upper-case letter: \<open>MatchRule\<close> trims the
  lower-cased extension \<^verbatim>\<open>.pdf\<close> from \<^verbatim>\<open>REPORT.PDF\<close>, which does not end in it, so the
  name it tests is \<^verbatim>\<open>report.pdf\<close> and not \<^verbatim>\<open>report\<close>, and a rule that asks for \<^verbatim>\<open>pdf\<close>
  in the name matches the file, while it does not match \<^verbatim>\<open>report.pdf\<close>, the same name
  in lower case.
\<close>

theorem MatchRule_upper_case_extension_kept:
  "fileExt ''/in/REPORT.PDF'' = ''.pdf''
   \<and> fileNameWithoutExt ''/in/REPORT.PDF'' = ''report.pdf''
   \<and> loweredStem ''/in/REPORT.PDF'' = ''report''
   \<and> \<not> Contains (loweredStem ''/in/REPORT.PDF'') ''pdf''
   \<and> MatchRule ''/in/REPORT.PDF'' [pdfNamed] = Some pdfNamed
   \<and> MatchRule ''/in/report.pdf'' [pdfNamed] = None
   \<and> MatchRule ''/in/REPORT.PDF'' [pdfReports] = Some pdfReports
   \<and> MatchRule ''/in/REPORT.PDF'' [pdfReports\<lparr>Extensions := [''pdf'']\<rparr>] = None"
  by code_simp

section \<open>Properties of the validation\<close>

lemma validateRule_accepts:
  assumes "fst (validateRule env m j fs rule) = None"
  shows "hasCriterion rule"
  using assms
  by (auto simp add: validateRule_def hasCriterion_def split: if_splits prod.splits option.splits)

lemma validateRules_accepts:
  assumes "fst (validateRules env m j fs rules) = None"
  shows "list_all hasCriterion rules"
  using assms
proof (induction rules arbitrary: j fs)
  case Nil
  show ?case by simp
next
  case (Cons rule rest)
  obtain r fs' where step: "validateRule env m j fs rule = (r, fs')"
    by (cases "validateRule env m j fs rule")
  with Cons.prems have none: "r = None" and tail: "fst (validateRules env m (j + 1) fs' rest) = None"
    by (auto split: option.splits)
  from step none have "hasCriterion rule"
    using validateRule_accepts [of env m j fs rule] by simp
  moreover from tail have "list_all hasCriterion rest"
    by (rule Cons.IH)
  ultimately show ?case by simp
qed

lemma validateMonitors_accepts:
  assumes "fst (validateMonitors env i fs monitors) = None"
  shows "list_all (\<lambda>mon. list_all hasCriterion (Monitor.Rules mon)) monitors"
  using assms
proof (induction monitors arbitrary: i fs)
  case Nil
  show ?case by simp
next
  case (Cons mon rest)
  obtain r fs' where step: "validateRules env (Monitor.Name mon) 0 fs (Monitor.Rules mon) = (r, fs')"
    by (cases "validateRules env (Monitor.Name mon) 0 fs (Monitor.Rules mon)")
  with Cons.prems have none: "r = None" and tail: "fst (validateMonitors env (i + 1) fs' rest) = None"
    by (auto split: if_splits option.splits)
  from step none have "list_all hasCriterion (Monitor.Rules mon)"
    using validateRules_accepts [of env "Monitor.Name mon" 0 fs "Monitor.Rules mon"] by simp
  moreover from tail have "list_all (\<lambda>mon. list_all hasCriterion (Monitor.Rules mon)) rest"
    by (rule Cons.IH)
  ultimately show ?case by simp
qed

lemma Validate_accepts:
  assumes "fst (Validate parse env fs c) = None"
  shows "list_all (\<lambda>mon. list_all hasCriterion (Monitor.Rules mon)) (Monitors c)"
proof -
  from assms have "fst (validateMonitors env 0 fs (Monitors c)) = None"
    by (auto simp add: Validate_def split: if_splits sum.splits)
  then show ?thesis by (rule validateMonitors_accepts)
qed

text \<open>
  C5, as the claim states it, fails: a rule whose only predicate is a non-empty
  name-contains-all list has one of its four lists non-empty, and the validation
  rejects it for having no matching criterion.
\<close>

theorem Validate_rejects_contains_all_only:
  "NameContainsAll allOfRule \<noteq> []
   \<and> fst (Validate parseTwoSeconds noFaults inboxOnly (configOf [allOfRule]))
       = Some (NoMatchingCriterion ''inbox'' ''all of'')"
  by code_simp

text \<open>
  C5, amended. The validation looks at three lists: extensions, name-contains and
  name-starts-with. A named rule is rejected for having no matching criterion exactly
  when these three are empty; so every rule whose four lists are all empty is rejected,
  a rule with one of the three non-empty is never rejected for its predicate fields,
  and a configuration that validates has, in every rule of every monitor, one of the
  three non-empty.
\<close>

theorem Validate_three_criteria:
  "((\<exists>a b. fst (validateRule env m j fs rule) = Some (NoMatchingCriterion a b))
      \<longleftrightarrow> Rule.Name rule \<noteq> [] \<and> Extensions rule = [] \<and> NameContains rule = []
          \<and> NameStartsWith rule = [])
   \<and> (Extensions rule = [] \<and> NameContains rule = [] \<and> NameContainsAll rule = []
        \<and> NameStartsWith rule = [] \<longrightarrow> fst (validateRule env m j fs rule) \<noteq> None)
   \<and> (fst (Validate parse env fs c) = None \<longrightarrow>
        (\<forall>mon \<in> set (Monitors c). \<forall>r \<in> set (Monitor.Rules mon).
           Extensions r \<noteq> [] \<or> NameContains r \<noteq> [] \<or> NameStartsWith r \<noteq> []))"
proof -
  have a: "(\<exists>a b. fst (validateRule env m j fs rule) = Some (NoMatchingCriterion a b))
      \<longleftrightarrow> Rule.Name rule \<noteq> [] \<and> Extensions rule = [] \<and> NameContains rule = []
          \<and> NameStartsWith rule = []"
    by (auto simp add: validateRule_def split: prod.splits option.splits)
  have b: "Extensions rule = [] \<and> NameContains rule = [] \<and> NameContainsAll rule = []
        \<and> NameStartsWith rule = [] \<longrightarrow> fst (validateRule env m j fs rule) \<noteq> None"
    by (simp add: validateRule_def)
  have c: "fst (Validate parse env fs c) = None \<longrightarrow>
        (\<forall>mon \<in> set (Monitors c). \<forall>r \<in> set (Monitor.Rules mon).
           Extensions r \<noteq> [] \<or> NameContains r \<noteq> [] \<or> NameStartsWith r \<noteq> [])"
  proof
    assume "fst (Validate parse env fs c) = None"
    then have "list_all (\<lambda>mon. list_all hasCriterion (Monitor.Rules mon)) (Monitors c)"
      by (rule Validate_accepts)
    then show "\<forall>mon \<in> set (Monitors c). \<forall>r \<in> set (Monitor.Rules mon).
           Extensions r \<noteq> [] \<or> NameContains r \<noteq> [] \<or> NameStartsWith r \<noteq> []"
      by (simp add: list_all_iff hasCriterion_def)
  qed
  from a b c show ?thesis by blast
qed

theorem Validate_three_criteria_witness:
  "(\<exists>a b. fst (validateRule noFaults ''inbox'' 0 inboxOnly anyRule)
             = Some (NoMatchingCriterion a b))
   \<and> fst (validateRule noFaults ''inbox'' 0 inboxOnly anyRule) \<noteq> None
   \<and> fst (Validate parseTwoSeconds noFaults inboxOnly (configOf [pdfReports, pdfNamed])) = None
   \<and> list_all hasCriterion [pdfReports, pdfNamed]"
proof -
  have h1: "Rule.Name anyRule \<noteq> [] \<and> Extensions anyRule = [] \<and> NameContains anyRule = []
        \<and> NameContainsAll anyRule = [] \<and> NameStartsWith anyRule = []"
    by (simp add: anyRule_def)
  have h2: "fst (Validate parseTwoSeconds noFaults inboxOnly (configOf [pdfReports, pdfNamed]))
        = None"
    by code_simp
  have m: "Monitors (configOf [pdfReports, pdfNamed])
        = [\<lparr>Monitor.Name = ''inbox'', SourcePath = ''/in'', Recursive = True,
             Monitor.Rules = [pdfReports, pdfNamed]\<rparr>]"
    by (simp add: configOf_def)
  from h1 Validate_three_criteria [of noFaults "''inbox''" 0 inboxOnly anyRule]
  have p1: "(\<exists>a b. fst (validateRule noFaults ''inbox'' 0 inboxOnly anyRule)
             = Some (NoMatchingCriterion a b))
      \<and> fst (validateRule noFaults ''inbox'' 0 inboxOnly anyRule) \<noteq> None"
    by blast
  from h2 m Validate_three_criteria
      [where parse = parseTwoSeconds and env = noFaults and fs = inboxOnly
        and c = "configOf [pdfReports, pdfNamed]"]
  have p2: "list_all hasCriterion [pdfReports, pdfNamed]"
    by (simp add: hasCriterion_def)
  from p1 h2 p2 show ?thesis by blast
qed

section \<open>Properties of the watcher\<close>

lemma IsFileReady_loop_end: "IsFileReady_loop tline d path maxRetries = (False, [])"
  by (subst IsFileReady_loop.simps) simp

lemma IsFileReady_loop_busy:
  assumes "i < maxRetries" and "busyAt tline path i"
  shows "IsFileReady_loop tline d path i =
     (fst (IsFileReady_loop tline d path (i + 1)),
      OpenAttempt path #
        (if i < maxRetries - 1 then [Logged Debug ''File busy, retrying...'', Slept d] else [])
        @ snd (IsFileReady_loop tline d path (i + 1)))"
  using assms
  by (subst IsFileReady_loop.simps) (auto simp add: busyAt_def split: sum.splits prod.splits)

lemma IsFileReady_loop_inaccessible:
  assumes "i < maxRetries" and "os_Open (fst (tline i)) (snd (tline i)) path = Inl e"
    and "e = NotExist \<or> e = Permission"
  shows "IsFileReady_loop tline d path i
     = (False, [OpenAttempt path, Logged Debug ''File not accessible''])"
  using assms by (subst IsFileReady_loop.simps) auto

lemma IsFileReady_loop_opened:
  assumes "i < maxRetries" and "os_Open (fst (tline i)) (snd (tline i)) path = Inr f"
    and "os_Stat (fst (tline i)) (snd (tline i)) path = Inr info"
  shows "IsFileReady_loop tline d path i
     = (True, OpenAttempt path #
          (if nodeSize (fst (tline i)) info = 0 then [Logged Debug ''File has zero size''] else []))"
  using assms by (subst IsFileReady_loop.simps) auto

lemma concat_replicate_Suc:
  "concat (replicate (Suc k) xs) = concat (replicate k xs) @ xs"
  by (induction k) simp_all

lemma IsFileReady_loop_retries:
  assumes "k < maxRetries" and "\<forall>i<k. busyAt tline path i"
  shows "IsFileReady_loop tline d path 0 =
     (fst (IsFileReady_loop tline d path k),
      concat (replicate k (busyRetry path d)) @ snd (IsFileReady_loop tline d path k))"
  using assms
proof (induction k)
  case 0
  show ?case by simp
next
  case (Suc k)
  have k: "k < maxRetries - 1" "k < maxRetries" using Suc.prems by auto
  have b: "busyAt tline path k" using Suc.prems by simp
  have ih: "IsFileReady_loop tline d path 0 =
     (fst (IsFileReady_loop tline d path k),
      concat (replicate k (busyRetry path d)) @ snd (IsFileReady_loop tline d path k))"
    using Suc by simp
  note step = IsFileReady_loop_busy [OF k(2) b, of d]
  show ?case
    unfolding ih concat_replicate_Suc using k by (simp add: step busyRetry_def)
qed

text \<open>
  C8. The readiness check stops at the first attempt whose open fails because the file
  is missing or inaccessible: it answers not ready with no pause and no further attempt
  after that failure (at the first attempt: one open, no pause at all). While the open
  fails for another reason it tries again, \<open>maxRetries\<close> = 3 attempts in all with a pause
  of the configured delay between two attempts, and answers not ready after the third.
  A file of size zero that opens is ready.
\<close>

theorem IsFileReady_readiness:
  "(k < maxRetries \<and> (\<forall>i<k. busyAt tline path i)
      \<and> os_Open (fst (tline k)) (snd (tline k)) path = Inl e \<and> (e = NotExist \<or> e = Permission)
      \<longrightarrow> IsFileReady fw tline path
          = (False, concat (replicate k (busyRetry path (delay fw)))
                      @ [OpenAttempt path, Logged Debug ''File not accessible'']))
   \<and> ((\<forall>i<maxRetries. busyAt tline path i)
      \<longrightarrow> IsFileReady fw tline path
          = (False, busyRetry path (delay fw) @ busyRetry path (delay fw) @ [OpenAttempt path]))
   \<and> (tline 0 = (env, fs) \<and> fault env (OpOpen path) = None \<and> fault env (OpStat path) = None
        \<and> fs path = Some (RegularFile [] m)
      \<longrightarrow> IsFileReady fw tline path
          = (True, [OpenAttempt path, Logged Debug ''File has zero size'']))"
proof (intro conjI impI)
  assume h: "k < maxRetries \<and> (\<forall>i<k. busyAt tline path i)
      \<and> os_Open (fst (tline k)) (snd (tline k)) path = Inl e \<and> (e = NotExist \<or> e = Permission)"
  then have last: "IsFileReady_loop tline (delay fw) path k
      = (False, [OpenAttempt path, Logged Debug ''File not accessible''])"
    using IsFileReady_loop_inaccessible [of k tline path e "delay fw"] by blast
  from h have "IsFileReady_loop tline (delay fw) path 0 =
     (fst (IsFileReady_loop tline (delay fw) path k),
      concat (replicate k (busyRetry path (delay fw)))
        @ snd (IsFileReady_loop tline (delay fw) path k))"
    using IsFileReady_loop_retries [of k tline path "delay fw"] by blast
  with last show "IsFileReady fw tline path
          = (False, concat (replicate k (busyRetry path (delay fw)))
                      @ [OpenAttempt path, Logged Debug ''File not accessible''])"
    by (simp add: IsFileReady_def)
next
  assume h: "\<forall>i<maxRetries. busyAt tline path i"
  have two: "(2::nat) < maxRetries" by (simp add: maxRetries_def)
  from h two have b2: "busyAt tline path 2" and before: "\<forall>i<2. busyAt tline path i"
    by auto
  have three: "(2::nat) + 1 = maxRetries" by (simp add: maxRetries_def)
  have last: "IsFileReady_loop tline (delay fw) path 2 = (False, [OpenAttempt path])"
    using IsFileReady_loop_busy [OF two b2, of "delay fw"]
    by (simp only: three IsFileReady_loop_end) (simp add: maxRetries_def)
  have "IsFileReady_loop tline (delay fw) path 0 =
     (fst (IsFileReady_loop tline (delay fw) path 2),
      concat (replicate 2 (busyRetry path (delay fw)))
        @ snd (IsFileReady_loop tline (delay fw) path 2))"
    using IsFileReady_loop_retries [OF two before] .
  with last show "IsFileReady fw tline path
          = (False, busyRetry path (delay fw) @ busyRetry path (delay fw) @ [OpenAttempt path])"
    by (simp add: IsFileReady_def numeral_2_eq_2)
next
  assume h: "tline 0 = (env, fs) \<and> fault env (OpOpen path) = None \<and> fault env (OpStat path) = None
        \<and> fs path = Some (RegularFile [] m)"
  then have o: "os_Open (fst (tline 0)) (snd (tline 0)) path = Inr (RegularFile [] m)"
    and s: "os_Stat (fst (tline 0)) (snd (tline 0)) path = Inr (RegularFile [] m)"
    by (simp_all add: os_Open_def os_Stat_def)
  have z: "0 < maxRetries" by (simp add: maxRetries_def)
  show "IsFileReady fw tline path = (True, [OpenAttempt path, Logged Debug ''File has zero size''])"
    using z o s IsFileReady_loop_opened [of 0 tline path "RegularFile [] m" "RegularFile [] m" "delay fw"]
    by (simp add: IsFileReady_def nodeSize_def)
qed

theorem IsFileReady_readiness_witness:
  "IsFileReady inboxWatcher (still (failing (OpOpen ''/in/a.pdf'') Permission) inboxFiles) ''/in/a.pdf''
     = (False, [OpenAttempt ''/in/a.pdf'', Logged Debug ''File not accessible''])
   \<and> IsFileReady inboxWatcher (still (failing (OpOpen ''/in/a.pdf'') OtherErr) inboxFiles) ''/in/a.pdf''
     = (False, busyRetry ''/in/a.pdf'' 2000000000 @ busyRetry ''/in/a.pdf'' 2000000000
                 @ [OpenAttempt ''/in/a.pdf''])
   \<and> IsFileReady inboxWatcher (still noFaults inboxFiles) ''/in/empty.txt''
     = (True, [OpenAttempt ''/in/empty.txt'', Logged Debug ''File has zero size''])"
proof -
  let ?denied = "still (failing (OpOpen ''/in/a.pdf'') Permission) inboxFiles"
  let ?locked = "still (failing (OpOpen ''/in/a.pdf'') OtherErr) inboxFiles"
  have d: "(0::nat) < maxRetries \<and> (\<forall>i<0. busyAt ?denied ''/in/a.pdf'' i)
      \<and> os_Open (fst (?denied 0)) (snd (?denied 0)) ''/in/a.pdf'' = Inl Permission
      \<and> (Permission = NotExist \<or> Permission = Permission)"
    by (simp add: maxRetries_def still_def failing_def os_Open_def)
  have l: "\<forall>i<maxRetries. busyAt ?locked ''/in/a.pdf'' i"
    by (simp add: busyAt_def still_def failing_def os_Open_def)
  have e: "still noFaults inboxFiles 0 = (noFaults, inboxFiles)
      \<and> fault noFaults (OpOpen ''/in/empty.txt'') = None
      \<and> fault noFaults (OpStat ''/in/empty.txt'') = None
      \<and> inboxFiles ''/in/empty.txt'' = Some (RegularFile [] 420)"
    by (simp add: still_def noFaults_def inboxFiles_def)
  have dl: "delay inboxWatcher = 2000000000" by (simp add: inboxWatcher_def)
  from d IsFileReady_readiness [of 0 ?denied "''/in/a.pdf''" Permission inboxWatcher]
  have r1: "IsFileReady inboxWatcher ?denied ''/in/a.pdf''
     = (False, [OpenAttempt ''/in/a.pdf'', Logged Debug ''File not accessible''])"
    by simp
  from l IsFileReady_readiness [of _ ?locked "''/in/a.pdf''" _ inboxWatcher]
  have r2: "IsFileReady inboxWatcher ?locked ''/in/a.pdf''
     = (False, busyRetry ''/in/a.pdf'' 2000000000 @ busyRetry ''/in/a.pdf'' 2000000000
                 @ [OpenAttempt ''/in/a.pdf''])"
    by (simp only: dl)
  from e IsFileReady_readiness
      [where tline = "still noFaults inboxFiles" and path = "''/in/empty.txt''"
        and fw = inboxWatcher and env = noFaults and fs = inboxFiles and m = 420]
  have r3: "IsFileReady inboxWatcher (still noFaults inboxFiles) ''/in/empty.txt''
     = (True, [OpenAttempt ''/in/empty.txt'', Logged Debug ''File has zero size''])"
    by blast
  from r1 r2 r3 show ?thesis by blast
qed

lemma walkFn_watcher:
  "watcher (fst acc) \<subseteq> watcher (fst (walkFn env fs path acc v))
   \<and> watcher (fst (walkFn env fs path acc v))
       \<subseteq> watcher (fst acc) \<union> {q. q = fst v \<and> \<not> HasPrefix (Base q) ''.'' \<and> q \<noteq> path}"
  by (auto simp add: walkFn_def watcher_Add_def
      split: prod.splits sum.splits option.splits if_splits)

lemma walk_watcher_mono:
  "watcher (fst acc) \<subseteq> watcher (fst (foldl (walkFn env fs path) acc vs))"
proof (induction vs arbitrary: acc)
  case Nil
  show ?case by simp
next
  case (Cons v vs)
  have "watcher (fst acc) \<subseteq> watcher (fst (walkFn env fs path acc v))"
    using walkFn_watcher by blast
  also have "\<dots> \<subseteq> watcher (fst (foldl (walkFn env fs path) (walkFn env fs path acc v) vs))"
    by (rule Cons.IH)
  finally show ?case by simp
qed

lemma walk_watcher_upper:
  "watcher (fst (foldl (walkFn env fs path) acc vs))
     \<subseteq> watcher (fst acc) \<union> {q. \<not> HasPrefix (Base q) ''.'' \<and> q \<noteq> path}"
proof (induction vs arbitrary: acc)
  case Nil
  show ?case by simp
next
  case (Cons v vs)
  have "watcher (fst (foldl (walkFn env fs path) (walkFn env fs path acc v) vs))
      \<subseteq> watcher (fst (walkFn env fs path acc v)) \<union> {q. \<not> HasPrefix (Base q) ''.'' \<and> q \<noteq> path}"
    by (rule Cons.IH)
  moreover have "watcher (fst (walkFn env fs path acc v))
      \<subseteq> watcher (fst acc) \<union> {q. \<not> HasPrefix (Base q) ''.'' \<and> q \<noteq> path}"
    using walkFn_watcher [of acc env fs path v] by blast
  ultimately show ?case by auto
qed

lemma walkFn_adds:
  assumes "\<not> HasPrefix (Base p) ''.''" and "p \<noteq> path"
    and "fault env (OpWatch p) = None" and "fs p \<noteq> None"
  shows "p \<in> watcher (fst (walkFn env fs path acc (p, Inr Directory)))"
  using assms
  by (auto simp add: walkFn_def watcher_Add_def isDir_def split: prod.splits)

lemma walk_adds:
  assumes "(p, Inr Directory) \<in> set vs" and "\<not> HasPrefix (Base p) ''.''" and "p \<noteq> path"
    and "fault env (OpWatch p) = None" and "fs p \<noteq> None"
  shows "p \<in> watcher (fst (foldl (walkFn env fs path) acc vs))"
  using assms(1)
proof (induction vs arbitrary: acc)
  case Nil
  then show ?case by simp
next
  case (Cons v vs)
  show ?case
  proof (cases "v = (p, Inr Directory)")
    case True
    have "p \<in> watcher (fst (walkFn env fs path acc v))"
      unfolding True using assms(2-5) by (rule walkFn_adds)
    then show ?thesis
      using walk_watcher_mono [of "walkFn env fs path acc v" env fs path vs] by auto
  next
    case False
    with Cons.prems have "(p, Inr Directory) \<in> set vs" by simp
    then show ?thesis using Cons.IH by simp
  qed
qed

text \<open>
  C10. A creation event for a directory, under a recursive monitor, subscribes to the
  directory whatever its name, also when the name begins with a dot (provided the
  subscription itself does not fail): the check of hidden names comes after the branch
  for directories and is applied to files only, where a name with a dot in front is
  ignored. The walk at start-up subscribes to no directory whose name begins with a dot
  (the root apart, which is subscribed to before the walk), and to each other directory
  it visits.
\<close>

theorem created_hidden_directory_is_watched:
  "(Recursive (config fw) \<and> Op event AND Chmod \<noteq> Chmod \<and> Op event AND Create = Create
      \<and> tline 0 = (env, fs) \<and> fault env (OpStat (Event.Name event)) = None
      \<and> fault env (OpWatch (Event.Name event)) = None
      \<and> fs (Event.Name event) = Some Directory
      \<longrightarrow> handleEvent fw tline event
          = (fw\<lparr>watcher := insert (Event.Name event) (watcher fw)\<rparr>,
             [Logged Debug ''Now watching new subdirectory'']))
   \<and> (Op event AND Chmod \<noteq> Chmod \<and> (Op event AND Create = Create \<or> Op event AND Write = Write)
      \<and> tline 0 = (env, fs) \<and> fault env (OpStat (Event.Name event)) = None
      \<and> fs (Event.Name event) = Some (RegularFile c m)
      \<and> HasPrefix (Base (Event.Name event)) ''.''
      \<longrightarrow> handleEvent fw tline event = (fw, [Logged Debug ''Ignoring hidden file'']))
   \<and> (addPath fw0 env0 fs0 visits path recursive = Inr (fw', effs)
      \<and> HasPrefix (Base p) ''.'' \<and> p \<noteq> path \<and> p \<notin> watcher fw0
      \<longrightarrow> p \<notin> watcher fw')
   \<and> (addPath fw0 env0 fs0 visits path True = Inr (fw', effs)
      \<and> (q, Inr Directory) \<in> set visits \<and> \<not> HasPrefix (Base q) ''.''
      \<and> fault env0 (OpWatch q) = None \<and> fs0 q \<noteq> None
      \<longrightarrow> q \<in> watcher fw')"
proof (intro conjI impI)
  assume "Recursive (config fw) \<and> Op event AND Chmod \<noteq> Chmod \<and> Op event AND Create = Create
      \<and> tline 0 = (env, fs) \<and> fault env (OpStat (Event.Name event)) = None
      \<and> fault env (OpWatch (Event.Name event)) = None
      \<and> fs (Event.Name event) = Some Directory"
  then show "handleEvent fw tline event
          = (fw\<lparr>watcher := insert (Event.Name event) (watcher fw)\<rparr>,
             [Logged Debug ''Now watching new subdirectory''])"
    by (simp add: handleEvent_def os_Stat_def watcher_Add_def isDir_def)
next
  assume "Op event AND Chmod \<noteq> Chmod \<and> (Op event AND Create = Create \<or> Op event AND Write = Write)
      \<and> tline 0 = (env, fs) \<and> fault env (OpStat (Event.Name event)) = None
      \<and> fs (Event.Name event) = Some (RegularFile c m)
      \<and> HasPrefix (Base (Event.Name event)) ''.''"
  then show "handleEvent fw tline event = (fw, [Logged Debug ''Ignoring hidden file''])"
    by (auto simp add: handleEvent_def os_Stat_def isDir_def)
next
  assume h: "addPath fw0 env0 fs0 visits path recursive = Inr (fw', effs)
      \<and> HasPrefix (Base p) ''.'' \<and> p \<noteq> path \<and> p \<notin> watcher fw0"
  then obtain w where w: "watcher_Add env0 fs0 (watcher fw0) path = Inr w"
    by (auto simp add: addPath_def split: sum.splits)
  then have wi: "w = insert path (watcher fw0)"
    by (auto simp add: watcher_Add_def split: option.splits)
  let ?start = "(fw0\<lparr>watcher := w\<rparr>, [Logged Debug ''Watching path''])"
  have "watcher fw' \<subseteq> w \<union> {q. \<not> HasPrefix (Base q) ''.'' \<and> q \<noteq> path}"
  proof (cases recursive)
    case True
    with h w have "fw' = fst (foldl (walkFn env0 fs0 path) ?start visits)"
      by (simp add: addPath_def)
    then show ?thesis
      using walk_watcher_upper [of env0 fs0 path ?start visits] by simp
  next
    case False
    with h w have "fw' = fw0\<lparr>watcher := w\<rparr>"
      by (simp add: addPath_def)
    then show ?thesis by simp
  qed
  with h wi show "p \<notin> watcher fw'" by auto
next
  assume h: "addPath fw0 env0 fs0 visits path True = Inr (fw', effs)
      \<and> (q, Inr Directory) \<in> set visits \<and> \<not> HasPrefix (Base q) ''.''
      \<and> fault env0 (OpWatch q) = None \<and> fs0 q \<noteq> None"
  then obtain w where w: "watcher_Add env0 fs0 (watcher fw0) path = Inr w"
    by (auto simp add: addPath_def split: sum.splits)
  then have wi: "w = insert path (watcher fw0)"
    by (auto simp add: watcher_Add_def split: option.splits)
  let ?start = "(fw0\<lparr>watcher := w\<rparr>, [Logged Debug ''Watching path''])"
  from h w have fw': "fw' = fst (foldl (walkFn env0 fs0 path) ?start visits)"
    by (simp add: addPath_def)
  show "q \<in> watcher fw'"
  proof (cases "q = path")
    case True
    with wi have "q \<in> watcher (fst ?start)" by simp
    then show ?thesis
      unfolding fw' using walk_watcher_mono [of ?start env0 fs0 path visits] by blast
  next
    case False
    with h show ?thesis
      unfolding fw' using walk_adds [of q visits path env0 fs0 ?start] by blast
  qed
qed

theorem created_hidden_directory_is_watched_witness:
  "handleEvent inboxWatcher (still noFaults inboxFiles) \<lparr>Event.Name = ''/in/.cache'', Op = Create\<rparr>
     = (inboxWatcher\<lparr>watcher := insert ''/in/.cache'' (watcher inboxWatcher)\<rparr>,
        [Logged Debug ''Now watching new subdirectory''])
   \<and> handleEvent inboxWatcher (still noFaults inboxFiles) \<lparr>Event.Name = ''/in/.hidden'', Op = Write\<rparr>
     = (inboxWatcher, [Logged Debug ''Ignoring hidden file''])
   \<and> (case NewFileWatcher inboxMonitor 2000000000 noFaults inboxFiles inboxVisits of
         Inl err \<Rightarrow> False
       | Inr (fw', effs) \<Rightarrow> ''/in/.cache'' \<notin> watcher fw' \<and> ''/in/sub'' \<in> watcher fw')"
proof -
  let ?tline = "still noFaults inboxFiles"
  let ?dir = "\<lparr>Event.Name = ''/in/.cache'', Op = Create\<rparr>"
  let ?file = "\<lparr>Event.Name = ''/in/.hidden'', Op = Write\<rparr>"
  let ?fw0 = "\<lparr>config = inboxMonitor, delay = 2000000000, watcher = {}\<rparr>"
  have h1: "Recursive (config inboxWatcher) \<and> Op ?dir AND Chmod \<noteq> Chmod
      \<and> Op ?dir AND Create = Create
      \<and> ?tline 0 = (noFaults, inboxFiles) \<and> fault noFaults (OpStat (Event.Name ?dir)) = None
      \<and> fault noFaults (OpWatch (Event.Name ?dir)) = None
      \<and> inboxFiles (Event.Name ?dir) = Some Directory"
    by (simp add: inboxWatcher_def inboxMonitor_def Create_def Chmod_def still_def noFaults_def
        inboxFiles_def)
  have h2: "Op ?file AND Chmod \<noteq> Chmod
      \<and> (Op ?file AND Create = Create \<or> Op ?file AND Write = Write)
      \<and> ?tline 0 = (noFaults, inboxFiles) \<and> fault noFaults (OpStat (Event.Name ?file)) = None
      \<and> inboxFiles (Event.Name ?file) = Some (RegularFile ''x'' 420)
      \<and> HasPrefix (Base (Event.Name ?file)) ''.''"
    by (simp add: Write_def Chmod_def still_def noFaults_def inboxFiles_def HasPrefix_def
        Base_def stripTrailingSlashes_def lastElement_def)
  have "\<exists>fw' effs. addPath ?fw0 noFaults inboxFiles inboxVisits ''/in'' True = Inr (fw', effs)"
    by (simp add: addPath_def watcher_Add_def noFaults_def inboxFiles_def)
  then obtain fw' effs
    where a: "addPath ?fw0 noFaults inboxFiles inboxVisits ''/in'' True = Inr (fw', effs)"
    by blast
  have h3: "HasPrefix (Base ''/in/.cache'') ''.'' \<and> ''/in/.cache'' \<noteq> ''/in''
      \<and> ''/in/.cache'' \<notin> watcher ?fw0"
    by (simp add: HasPrefix_def Base_def stripTrailingSlashes_def lastElement_def)
  have h4: "(''/in/sub'', Inr Directory) \<in> set inboxVisits \<and> \<not> HasPrefix (Base ''/in/sub'') ''.''
      \<and> fault noFaults (OpWatch ''/in/sub'') = None \<and> inboxFiles ''/in/sub'' \<noteq> None"
    by (simp add: inboxVisits_def HasPrefix_def Base_def stripTrailingSlashes_def lastElement_def
        noFaults_def inboxFiles_def)
  note inst = created_hidden_directory_is_watched
      [where fw = inboxWatcher and tline = ?tline and env = noFaults and fs = inboxFiles
        and fw0 = ?fw0 and env0 = noFaults and fs0 = inboxFiles and visits = inboxVisits
        and path = "''/in''" and recursive = True and fw' = fw' and effs = effs
        and p = "''/in/.cache''" and q = "''/in/sub''"]
  from h1 inst [where event = ?dir]
  have r1: "handleEvent inboxWatcher ?tline ?dir
     = (inboxWatcher\<lparr>watcher := insert ''/in/.cache'' (watcher inboxWatcher)\<rparr>,
        [Logged Debug ''Now watching new subdirectory''])"
    by simp
  from h2 inst [where event = ?file and c = "''x''" and m = 420]
  have r2: "handleEvent inboxWatcher ?tline ?file = (inboxWatcher, [Logged Debug ''Ignoring hidden file''])"
    by blast
  from a h3 h4 inst [where event = ?dir]
  have r3: "''/in/.cache'' \<notin> watcher fw' \<and> ''/in/sub'' \<in> watcher fw'"
    by blast
  have nf: "fault noFaults OpNewWatcher = None" by (simp add: noFaults_def)
  have n: "NewFileWatcher inboxMonitor 2000000000 noFaults inboxFiles inboxVisits = Inr (fw', effs)"
    using a nf by (simp add: NewFileWatcher_def inboxMonitor_def)
  from r1 r2 r3 n show ?thesis by simp
qed

lemma IsFileReady_loop_no_submit:
  "Submitted job \<notin> set (snd (IsFileReady_loop tline d path i))"
proof (induction tline d path i rule: IsFileReady_loop.induct)
  case (1 tline d path i)
  then show ?case
    by (subst IsFileReady_loop.simps) (auto split: sum.splits prod.splits if_splits)
qed

text \<open>
  C1. An event that passes every filter and whose file is ready is only logged: the
  result of \<open>handleEvent\<close> for a creation event of the readable regular file
  \<^verbatim>\<open>/in/a.pdf\<close> is the unchanged watcher and three effects, the last being the entry
  "File ready for processing". No job is built and nothing is sent to the worker pool,
  there or for any other event.
\<close>

theorem handleEvent_submits_nothing:
  "handleEvent inboxWatcher (still noFaults inboxFiles) \<lparr>Event.Name = ''/in/a.pdf'', Op = Create\<rparr>
     = (inboxWatcher,
        [Logged Debug ''File event detected'', OpenAttempt ''/in/a.pdf'',
         Logged Info ''File ready for processing''])
   \<and> (\<forall>fw tline event job. Submitted job \<notin> set (snd (handleEvent fw tline event)))"
proof -
  have a: "handleEvent inboxWatcher (still noFaults inboxFiles)
        \<lparr>Event.Name = ''/in/a.pdf'', Op = Create\<rparr>
     = (inboxWatcher,
        [Logged Debug ''File event detected'', OpenAttempt ''/in/a.pdf'',
         Logged Info ''File ready for processing''])"
    by code_simp
  have b: "Submitted job \<notin> set (snd (handleEvent fw tline event))" for fw tline event job
    using IsFileReady_loop_no_submit [of job tline "delay fw" "Event.Name event" 0]
    by (auto simp add: handleEvent_def IsFileReady_def Let_def
        split: sum.splits prod.splits if_splits)
  from a b show ?thesis by blast
qed

section \<open>Properties of the mover\<close>

lemma generateUniqueName_loop_free:
  assumes "os_Stat env fs (counterName destPath k) = Inl NotExist"
    and "\<forall>j\<in>{c..<k}. os_Stat env fs (counterName destPath j) \<noteq> Inl NotExist"
    and "c \<le> k" and "k \<le> 1000"
  shows "generateUniqueName_loop env fs destPath c = counterName destPath k"
  using assms(2,3)
proof (induction "k - c" arbitrary: c)
  case 0
  then have "c = k" by simp
  with assms(1) show ?case by (subst generateUniqueName_loop.simps) simp
next
  case (Suc n)
  then have lt: "c < k" by simp
  with Suc.prems have taken: "os_Stat env fs (counterName destPath c) \<noteq> Inl NotExist"
    by simp
  from lt assms(4) have more: "\<not> c + 1 > 1000" by simp
  have "generateUniqueName_loop env fs destPath (c + 1) = counterName destPath k"
  proof (rule Suc.hyps(1))
    show "n = k - (c + 1)" using Suc.hyps(2) by simp
    show "\<forall>j\<in>{c + 1..<k}. os_Stat env fs (counterName destPath j) \<noteq> Inl NotExist"
      using Suc.prems(1) by simp
    show "c + 1 \<le> k" using lt by simp
  qed
  with taken more show ?case by (subst generateUniqueName_loop.simps) simp
qed

lemma generateUniqueName_loop_exhausted:
  assumes "\<forall>j\<in>{c..1000}. os_Stat env fs (counterName destPath j) \<noteq> Inl NotExist"
    and "c \<le> 1000"
  shows "generateUniqueName_loop env fs destPath c = timestampName env destPath"
  using assms
proof (induction "1000 - c" arbitrary: c)
  case 0
  then have c: "c = 1000" by simp
  with "0.prems" have "os_Stat env fs (counterName destPath c) \<noteq> Inl NotExist" by simp
  with c show ?case by (subst generateUniqueName_loop.simps) simp
next
  case (Suc n)
  then have lt: "c < 1000" by simp
  from Suc.prems have taken: "os_Stat env fs (counterName destPath c) \<noteq> Inl NotExist"
    by simp
  have "generateUniqueName_loop env fs destPath (c + 1) = timestampName env destPath"
  proof (rule Suc.hyps(1))
    show "n = 1000 - (c + 1)" using Suc.hyps(2) by simp
    show "\<forall>j\<in>{c + 1..1000}. os_Stat env fs (counterName destPath j) \<noteq> Inl NotExist"
      using Suc.prems(1) by simp
    show "c + 1 \<le> 1000" using lt by simp
  qed
  with taken lt show ?case by (subst generateUniqueName_loop.simps) simp
qed

lemma find_free_counter:
  "find P [c..<Suc n] = Some k \<longleftrightarrow> c \<le> k \<and> k \<le> n \<and> P k \<and> (\<forall>j\<in>{c..<k}. \<not> P j)"
proof -
  have "find P [c..<Suc n] = Some k
      \<longleftrightarrow> (\<exists>i<length [c..<Suc n]. P ([c..<Suc n] ! i) \<and> k = [c..<Suc n] ! i
            \<and> (\<forall>j<i. \<not> P ([c..<Suc n] ! j)))"
    by (rule find_Some_iff)
  also have "\<dots> \<longleftrightarrow> (\<exists>i<Suc n - c. P (c + i) \<and> k = c + i \<and> (\<forall>j<i. \<not> P (c + j)))"
    by (auto simp del: upt_Suc)
  also have "\<dots> \<longleftrightarrow> c \<le> k \<and> k \<le> n \<and> P k \<and> (\<forall>j\<in>{c..<k}. \<not> P j)"
  proof
    assume "\<exists>i<Suc n - c. P (c + i) \<and> k = c + i \<and> (\<forall>j<i. \<not> P (c + j))"
    then obtain i where i: "i < Suc n - c" "P (c + i)" "k = c + i" "\<forall>j<i. \<not> P (c + j)"
      by blast
    have "\<not> P j" if "j \<in> {c..<k}" for j
    proof -
      from that i(3) have "j - c < i" and "c + (j - c) = j" by auto
      with i(4) show ?thesis by metis
    qed
    with i show "c \<le> k \<and> k \<le> n \<and> P k \<and> (\<forall>j\<in>{c..<k}. \<not> P j)" by auto
  next
    assume r: "c \<le> k \<and> k \<le> n \<and> P k \<and> (\<forall>j\<in>{c..<k}. \<not> P j)"
    then have "k - c < Suc n - c \<and> P (c + (k - c)) \<and> k = c + (k - c)
        \<and> (\<forall>j<k - c. \<not> P (c + j))"
      by auto
    then show "\<exists>i<Suc n - c. P (c + i) \<and> k = c + i \<and> (\<forall>j<i. \<not> P (c + j))"
      by blast
  qed
  finally show ?thesis .
qed

text \<open>
  C7. The unique name for an occupied destination path is the path with \<^verbatim>\<open>_<counter>\<close>
  put before its extension, for the least counter from 1 to 1000 whose name the stat
  reports as not existing: the counter starts at 1 and goes up by one past each name
  that is present. When the names of all the counters 1 to 1000 are present, it is the
  path with the time, in the layout year-month-day, underscore, hour-minute-second,
  put before the extension instead.
\<close>

theorem generateUniqueName_counter_then_timestamp:
  "generateUniqueName env fs destPath
     = (case find (\<lambda>k. os_Stat env fs (counterName destPath k) = Inl NotExist) [1..<1001] of
          Some k \<Rightarrow> counterName destPath k
        | None \<Rightarrow> timestampName env destPath)
   \<and> (1 \<le> k \<and> k \<le> 1000 \<and> os_Stat env fs (counterName destPath k) = Inl NotExist
        \<and> (\<forall>j\<in>{1..<k}. os_Stat env fs (counterName destPath j) \<noteq> Inl NotExist)
      \<longrightarrow> generateUniqueName env fs destPath = counterName destPath k)
   \<and> ((\<forall>j\<in>{1..1000}. os_Stat env fs (counterName destPath j) \<noteq> Inl NotExist)
      \<longrightarrow> generateUniqueName env fs destPath = timestampName env destPath)"
proof -
  let ?free = "\<lambda>k. os_Stat env fs (counterName destPath k) = Inl NotExist"
  have counter: "generateUniqueName env fs destPath = counterName destPath i"
    if "1 \<le> i" "i \<le> 1000" "?free i" "\<forall>j\<in>{1..<i}. \<not> ?free j" for i
    unfolding generateUniqueName_def
    using that(3,4,1,2) by (rule generateUniqueName_loop_free)
  have stamp: "generateUniqueName env fs destPath = timestampName env destPath"
    if "\<forall>j\<in>{1..1000}. \<not> ?free j"
    unfolding generateUniqueName_def
    using that by (rule generateUniqueName_loop_exhausted) simp
  have upt: "[1..<1001] = [1..<Suc 1000]" by simp
  have "generateUniqueName env fs destPath
     = (case find ?free [1..<1001] of
          Some k \<Rightarrow> counterName destPath k
        | None \<Rightarrow> timestampName env destPath)"
  proof (cases "find ?free [1..<1001]")
    case None
    then have "\<forall>j\<in>{1..1000}. \<not> ?free j"
      by (simp only: find_None_iff) auto
    with None stamp show ?thesis by simp
  next
    case (Some i)
    then have "1 \<le> i \<and> i \<le> 1000 \<and> ?free i \<and> (\<forall>j\<in>{1..<i}. \<not> ?free j)"
      unfolding upt find_free_counter by simp
    with Some counter show ?thesis by simp
  qed
  with counter [of k] stamp show ?thesis
    by blast
qed

theorem generateUniqueName_counter_then_timestamp_witness:
  "generateUniqueName noFaults disk ''/out/a.pdf'' = ''/out/a_2.pdf''
   \<and> generateUniqueName noFaults crowded ''/out/a.pdf'' = ''/out/a_20260122_120005.pdf''"
proof -
  have n2: "counterName ''/out/a.pdf'' 2 = ''/out/a_2.pdf''"
    by code_simp
  have n1: "counterName ''/out/a.pdf'' (Suc 0) = ''/out/a_1.pdf''"
    by code_simp
  have ts: "timestampName noFaults ''/out/a.pdf'' = ''/out/a_20260122_120005.pdf''"
    by code_simp
  have one: "{1..<2::nat} = {Suc 0}" by auto
  have h1: "(1::nat) \<le> 2 \<and> (2::nat) \<le> 1000
      \<and> os_Stat noFaults disk (counterName ''/out/a.pdf'' 2) = Inl NotExist
      \<and> (\<forall>j\<in>{1..<2}. os_Stat noFaults disk (counterName ''/out/a.pdf'' j) \<noteq> Inl NotExist)"
    unfolding one by (simp add: n1 n2 os_Stat_def noFaults_def disk_def)
  have h2: "\<forall>j\<in>{1..1000}. os_Stat noFaults crowded (counterName ''/out/a.pdf'' j) \<noteq> Inl NotExist"
    by (simp add: os_Stat_def noFaults_def crowded_def)
  have r1: "generateUniqueName noFaults disk ''/out/a.pdf'' = counterName ''/out/a.pdf'' 2"
    by (rule generateUniqueName_counter_then_timestamp
          [of noFaults disk "''/out/a.pdf''" 2, THEN conjunct2, THEN conjunct1, THEN mp, OF h1])
  have r2: "generateUniqueName noFaults crowded ''/out/a.pdf'' = timestampName noFaults ''/out/a.pdf''"
    by (rule generateUniqueName_counter_then_timestamp
          [of noFaults crowded "''/out/a.pdf''" 2, THEN conjunct2, THEN conjunct2, THEN mp, OF h2])
  from r1 r2 show ?thesis by (simp only: n2 ts)
qed

lemma mkdirs_preserves:
  assumes "fs p = Some x"
  shows "snd (mkdirs fs ds) p = Some x"
  using assms
proof (induction ds arbitrary: fs)
  case Nil
  then show ?case by simp
next
  case (Cons d ds)
  show ?case
  proof (cases "fs d")
    case None
    with Cons.prems have "(fs(d \<mapsto> Directory)) p = Some x" by auto
    then have "snd (mkdirs (fs(d \<mapsto> Directory)) ds) p = Some x" by (rule Cons.IH)
    with None show ?thesis by simp
  next
    case (Some n)
    then show ?thesis using Cons by (cases n) simp_all
  qed
qed

lemma os_MkdirAll_preserves:
  assumes "fs p = Some x"
  shows "snd (os_MkdirAll env fs destDir) p = Some x"
  using assms by (simp add: os_MkdirAll_def mkdirs_preserves split: option.splits)

text \<open>
  C4. When the source is a regular file, the destination directory is ensured, a file
  is at \<^verbatim>\<open>destination/filename\<close> and the strategy is neither \<^verbatim>\<open>rename\<close> nor
  \<^verbatim>\<open>overwrite\<close> (so also for \<^verbatim>\<open>skip\<close>), \<open>MoveFile\<close> returns the unknown-strategy error.
  Every file that was there before is there unchanged after, the source and the file at
  the destination among them.
\<close>

theorem MoveFile_unknown_strategy:
  "fs sourcePath = Some (RegularFile c m) \<and> fault env (OpStat sourcePath) = None
     \<and> fst (os_MkdirAll env fs destDir) = None
     \<and> fs (Join destDir (Base sourcePath)) = Some n
     \<and> fault env (OpStat (Join destDir (Base sourcePath))) = None
     \<and> conflictStrategy \<noteq> ''rename'' \<and> conflictStrategy \<noteq> ''overwrite''
   \<longrightarrow> MoveFile env fs sourcePath destDir conflictStrategy
         = (Some (UnknownStrategy conflictStrategy), snd (os_MkdirAll env fs destDir),
            startLogs @
              [Logged Debug ''Destination directory ready'',
               Logged Debug ''Destination file already exists, applying conflict strategy''])
       \<and> (\<forall>p x. fs p = Some x \<longrightarrow> snd (os_MkdirAll env fs destDir) p = Some x)
       \<and> snd (os_MkdirAll env fs destDir) sourcePath = Some (RegularFile c m)
       \<and> snd (os_MkdirAll env fs destDir) (Join destDir (Base sourcePath)) = Some n"
proof
  let ?dest = "Join destDir (Base sourcePath)"
  assume h: "fs sourcePath = Some (RegularFile c m) \<and> fault env (OpStat sourcePath) = None
     \<and> fst (os_MkdirAll env fs destDir) = None
     \<and> fs ?dest = Some n \<and> fault env (OpStat ?dest) = None
     \<and> conflictStrategy \<noteq> ''rename'' \<and> conflictStrategy \<noteq> ''overwrite''"
  then obtain fs1 where mk: "os_MkdirAll env fs destDir = (None, fs1)"
    by (metis prod.collapse)
  have keep: "\<forall>p x. fs p = Some x \<longrightarrow> fs1 p = Some x"
    using os_MkdirAll_preserves [of fs _ _ env destDir] by (simp add: mk)
  from h keep have src: "fs1 sourcePath = Some (RegularFile c m)" and dst: "fs1 ?dest = Some n"
    by blast+
  from h have stat: "os_Stat env fs sourcePath = Inr (RegularFile c m)"
    by (simp add: os_Stat_def)
  from h dst have "os_Stat env fs1 ?dest = Inr n"
    by (simp add: os_Stat_def)
  with h have res: "resolveDestination env fs1 ?dest conflictStrategy
      = Inl (UnknownStrategy conflictStrategy)"
    by (simp add: resolveDestination_def handleConflict_def)
  have "MoveFile env fs sourcePath destDir conflictStrategy
         = (Some (UnknownStrategy conflictStrategy), fs1,
            startLogs @
              [Logged Debug ''Destination directory ready'',
               Logged Debug ''Destination file already exists, applying conflict strategy''])"
    by (simp add: MoveFile_def stat mk res isDir_def)
  with keep src dst
  show "MoveFile env fs sourcePath destDir conflictStrategy
         = (Some (UnknownStrategy conflictStrategy), snd (os_MkdirAll env fs destDir),
            startLogs @
              [Logged Debug ''Destination directory ready'',
               Logged Debug ''Destination file already exists, applying conflict strategy''])
       \<and> (\<forall>p x. fs p = Some x \<longrightarrow> snd (os_MkdirAll env fs destDir) p = Some x)
       \<and> snd (os_MkdirAll env fs destDir) sourcePath = Some (RegularFile c m)
       \<and> snd (os_MkdirAll env fs destDir) ?dest = Some n"
    by (simp add: mk)
qed

lemma os_MkdirAll_out_env:
  assumes "fault env (OpMkdirAll ''/out'') = None"
  shows "os_MkdirAll env disk ''/out'' = (None, disk)"
  using assms by (simp add: os_MkdirAll_def dirPrefixes_def HasPrefix_def disk_def)

lemma os_MkdirAll_out: "os_MkdirAll noFaults disk ''/out'' = (None, disk)"
  by (rule os_MkdirAll_out_env) (simp add: noFaults_def)

lemma Join_out_a: "Join ''/out'' (Base ''/in/a.pdf'') = ''/out/a.pdf''"
  by code_simp

lemma Join_out_b: "Join ''/out'' (Base ''/in/b.txt'') = ''/out/b.txt''"
  by code_simp

theorem MoveFile_unknown_strategy_witness:
  "MoveFile noFaults disk ''/in/a.pdf'' ''/out'' ''skip''
     = (Some (UnknownStrategy ''skip''), disk,
        startLogs @
          [Logged Debug ''Destination directory ready'',
           Logged Debug ''Destination file already exists, applying conflict strategy''])
   \<and> disk ''/in/a.pdf'' = Some (RegularFile ''new'' 384)
   \<and> disk ''/out/a.pdf'' = Some (RegularFile ''old'' 420)"
proof -
  have h: "disk ''/in/a.pdf'' = Some (RegularFile ''new'' 384)
     \<and> fault noFaults (OpStat ''/in/a.pdf'') = None
     \<and> fst (os_MkdirAll noFaults disk ''/out'') = None
     \<and> disk (Join ''/out'' (Base ''/in/a.pdf'')) = Some (RegularFile ''old'' 420)
     \<and> fault noFaults (OpStat (Join ''/out'' (Base ''/in/a.pdf''))) = None
     \<and> ''skip'' \<noteq> ''rename'' \<and> ''skip'' \<noteq> ''overwrite''"
    by (simp add: os_MkdirAll_out Join_out_a) (simp add: disk_def noFaults_def)
  from MoveFile_unknown_strategy
      [of disk "''/in/a.pdf''" "''new''" 384 noFaults "''/out''" "RegularFile ''old'' 420" "''skip''",
        THEN mp, OF h]
  show ?thesis
    by (simp add: os_MkdirAll_out Join_out_a)
qed

lemma relocate_not_unknown_strategy:
  "fst (relocate env fs sourcePath destPath) \<noteq> Some (UnknownStrategy s)"
  by (auto simp add: relocate_def split: prod.splits option.splits)

lemma resolveDestination_no_file:
  assumes "os_Stat env fs destPath = Inl e"
  shows "resolveDestination env fs destPath conflictStrategy = Inr (destPath, [])"
  using assms by (simp add: resolveDestination_def)

lemma os_Rename_moves:
  assumes "fs old = Some n" and "fs new = None" and "fault env (OpRename old new) = None"
  shows "os_Rename env fs old new = (None, fs(new \<mapsto> n, old := None))"
proof -
  from assms(1,2) have "old \<noteq> new" by auto
  with assms show ?thesis by (simp add: os_Rename_def)
qed

lemma MoveFile_skip_onto_existing:
  "MoveFile noFaults disk ''/in/a.pdf'' ''/out'' ''skip''
     = (Some (UnknownStrategy ''skip''), disk,
        startLogs @
          [Logged Debug ''Destination directory ready'',
           Logged Debug ''Destination file already exists, applying conflict strategy''])"
proof -
  have stat: "os_Stat noFaults disk ''/in/a.pdf'' = Inr (RegularFile ''new'' 384)"
    by (simp add: os_Stat_def noFaults_def disk_def)
  have res: "resolveDestination noFaults disk ''/out/a.pdf'' ''skip''
      = Inl (UnknownStrategy ''skip'')"
    by (simp add: resolveDestination_def handleConflict_def os_Stat_def noFaults_def disk_def)
  show ?thesis
    by (simp add: MoveFile_def stat os_MkdirAll_out Join_out_a res isDir_def)
qed

text \<open>
  C9. When the stat of \<^verbatim>\<open>destination/filename\<close> fails, that is when no file is found
  there, the conflict strategy is not consulted: \<open>MoveFile\<close> gives the same result for
  any two strategies. With no file at the path and no failure of the rename, a regular
  source file is at \<^verbatim>\<open>destination/filename\<close> afterwards, no longer at the source, and
  the result is success, for any strategy. The unknown-strategy error is returned only
  when the stat of \<^verbatim>\<open>destination/filename\<close> succeeds.
\<close>

theorem MoveFile_strategy_only_on_conflict:
  "(os_Stat env (snd (os_MkdirAll env fs destDir)) (Join destDir (Base sourcePath)) = Inl e
      \<longrightarrow> MoveFile env fs sourcePath destDir strategy
          = MoveFile env fs sourcePath destDir strategy')
   \<and> (fs sourcePath = Some (RegularFile c m) \<and> fault env (OpStat sourcePath) = None
        \<and> os_MkdirAll env fs destDir = (None, fs1)
        \<and> fs1 (Join destDir (Base sourcePath)) = None
        \<and> fault env (OpRename sourcePath (Join destDir (Base sourcePath))) = None
      \<longrightarrow> MoveFile env fs sourcePath destDir strategy
          = (None,
             fs1(Join destDir (Base sourcePath) \<mapsto> RegularFile c m, sourcePath := None),
             startLogs @
               [Logged Debug ''Destination directory ready'',
                Logged Debug ''Attempting to move file'',
                Logged Info ''File moved successfully'']))
   \<and> (MoveFile env fs sourcePath destDir strategy = (Some (UnknownStrategy s), fs', logs)
      \<longrightarrow> (\<exists>info. os_Stat env (snd (os_MkdirAll env fs destDir))
                      (Join destDir (Base sourcePath)) = Inr info))"
proof (intro conjI impI)
  let ?dest = "Join destDir (Base sourcePath)"
  obtain r dirs where mk: "os_MkdirAll env fs destDir = (r, dirs)"
    by (cases "os_MkdirAll env fs destDir")
  {
    assume "os_Stat env (snd (os_MkdirAll env fs destDir)) ?dest = Inl e"
    then have "os_Stat env dirs ?dest = Inl e" by (simp add: mk)
    then have "resolveDestination env dirs ?dest st = Inr (?dest, [])" for st
      by (rule resolveDestination_no_file)
    then show "MoveFile env fs sourcePath destDir strategy
          = MoveFile env fs sourcePath destDir strategy'"
      by (cases r) (simp_all add: MoveFile_def mk split: sum.splits)
  }
  {
    assume h: "fs sourcePath = Some (RegularFile c m) \<and> fault env (OpStat sourcePath) = None
        \<and> os_MkdirAll env fs destDir = (None, fs1)
        \<and> fs1 ?dest = None \<and> fault env (OpRename sourcePath ?dest) = None"
    then have stat: "os_Stat env fs sourcePath = Inr (RegularFile c m)"
      by (simp add: os_Stat_def)
    from h have mk1: "os_MkdirAll env fs destDir = (None, fs1)" by simp
    have src: "fs1 sourcePath = Some (RegularFile c m)"
      using h os_MkdirAll_preserves [of fs sourcePath "RegularFile c m" env destDir]
      by simp
    from h have "\<exists>e. os_Stat env fs1 ?dest = Inl e"
      by (simp add: os_Stat_def split: option.splits)
    then have res: "resolveDestination env fs1 ?dest strategy = Inr (?dest, [])"
      using resolveDestination_no_file by blast
    have "os_Rename env fs1 sourcePath ?dest
        = (None, fs1(?dest \<mapsto> RegularFile c m, sourcePath := None))"
      using src h by (simp add: os_Rename_moves)
    then have rel: "relocate env fs1 sourcePath ?dest
        = (None, fs1(?dest \<mapsto> RegularFile c m, sourcePath := None),
           [Logged Debug ''Attempting to move file'', Logged Info ''File moved successfully''])"
      by (simp add: relocate_def)
    show "MoveFile env fs sourcePath destDir strategy
          = (None, fs1(?dest \<mapsto> RegularFile c m, sourcePath := None),
             startLogs @
               [Logged Debug ''Destination directory ready'',
                Logged Debug ''Attempting to move file'',
                Logged Info ''File moved successfully''])"
      by (simp add: MoveFile_def stat mk1 res rel isDir_def)
  }
  {
    assume h: "MoveFile env fs sourcePath destDir strategy = (Some (UnknownStrategy s), fs', logs)"
    show "\<exists>info. os_Stat env (snd (os_MkdirAll env fs destDir)) ?dest = Inr info"
    proof (cases "os_Stat env dirs ?dest")
      case (Inr info)
      then show ?thesis by (simp add: mk)
    next
      case (Inl e)
      then have res: "resolveDestination env dirs ?dest strategy = Inr (?dest, [])"
        by (rule resolveDestination_no_file)
      obtain a b c where rel: "relocate env dirs sourcePath ?dest = (a, b, c)"
        by (cases "relocate env dirs sourcePath ?dest")
      with relocate_not_unknown_strategy [of env dirs sourcePath ?dest s]
      have "a \<noteq> Some (UnknownStrategy s)" by simp
      with h res rel mk have False
        by (auto simp add: MoveFile_def split: sum.splits if_splits option.splits)
      then show ?thesis ..
    qed
  }
qed

theorem MoveFile_strategy_only_on_conflict_witness:
  "MoveFile noFaults disk ''/in/b.txt'' ''/out'' ''skip''
     = MoveFile noFaults disk ''/in/b.txt'' ''/out'' ''rename''
   \<and> MoveFile noFaults disk ''/in/b.txt'' ''/out'' ''skip''
     = (None,
        disk(''/out/b.txt'' \<mapsto> RegularFile ''hello world'' 384, ''/in/b.txt'' := None),
        startLogs @
          [Logged Debug ''Destination directory ready'',
           Logged Debug ''Attempting to move file'',
           Logged Info ''File moved successfully''])
   \<and> (\<exists>info. os_Stat noFaults disk ''/out/a.pdf'' = Inr info)"
proof -
  have h1: "os_Stat noFaults (snd (os_MkdirAll noFaults disk ''/out''))
        (Join ''/out'' (Base ''/in/b.txt'')) = Inl NotExist"
    by (simp add: os_MkdirAll_out Join_out_b) (simp add: os_Stat_def noFaults_def disk_def)
  have h2: "disk ''/in/b.txt'' = Some (RegularFile ''hello world'' 384)
        \<and> fault noFaults (OpStat ''/in/b.txt'') = None
        \<and> os_MkdirAll noFaults disk ''/out'' = (None, disk)
        \<and> disk (Join ''/out'' (Base ''/in/b.txt'')) = None
        \<and> fault noFaults (OpRename ''/in/b.txt'' (Join ''/out'' (Base ''/in/b.txt''))) = None"
    by (simp add: os_MkdirAll_out Join_out_b) (simp add: noFaults_def disk_def)
  note h3 = MoveFile_skip_onto_existing
  note inst = MoveFile_strategy_only_on_conflict
      [where env = noFaults and fs = disk and destDir = "''/out''" and strategy = "''skip''"
        and strategy' = "''rename''"]
  have r1: "MoveFile noFaults disk ''/in/b.txt'' ''/out'' ''skip''
     = MoveFile noFaults disk ''/in/b.txt'' ''/out'' ''rename''"
    by (rule inst [where sourcePath = "''/in/b.txt''", THEN conjunct1, THEN mp, OF h1])
  have r2: "MoveFile noFaults disk ''/in/b.txt'' ''/out'' ''skip''
     = (None,
        disk(Join ''/out'' (Base ''/in/b.txt'') \<mapsto> RegularFile ''hello world'' 384,
             ''/in/b.txt'' := None),
        startLogs @
          [Logged Debug ''Destination directory ready'',
           Logged Debug ''Attempting to move file'',
           Logged Info ''File moved successfully''])"
    by (rule inst [where sourcePath = "''/in/b.txt''", THEN conjunct2, THEN conjunct1, THEN mp,
          OF h2])
  have r3: "\<exists>info. os_Stat noFaults (snd (os_MkdirAll noFaults disk ''/out''))
        (Join ''/out'' (Base ''/in/a.pdf'')) = Inr info"
    by (rule inst [where sourcePath = "''/in/a.pdf''", THEN conjunct2, THEN conjunct2, THEN mp,
          OF h3])
  from r1 r2 r3 show ?thesis
    by (simp add: os_MkdirAll_out Join_out_a Join_out_b)
qed

lemma os_Create_file:
  assumes "fs dst \<noteq> Some Directory" and "fault env (OpCreate dst) = None"
  shows "\<exists>p0. os_Create env fs dst = (None, fs(dst \<mapsto> RegularFile [] p0))"
proof (cases "fs dst")
  case None
  with assms(2) have "os_Create env fs dst = (None, fs(dst \<mapsto> RegularFile [] (createPerm env)))"
    by (simp add: os_Create_def)
  then show ?thesis by blast
next
  case (Some n)
  with assms(1) obtain c m where "n = RegularFile c m" by (cases n) auto
  with Some assms(2) have "os_Create env fs dst = (None, fs(dst \<mapsto> RegularFile [] m))"
    by (simp add: os_Create_def)
  then show ?thesis by blast
qed

lemma copyFile_complete:
  assumes "fs src = Some (RegularFile c m)" and "src \<noteq> dst" and "fs dst \<noteq> Some Directory"
    and "fault env (OpOpen src) = None" and "fault env (OpCreate dst) = None"
    and "fault env (OpCopy dst src) = None" and "fault env (OpSync dst) = None"
  shows "\<exists>p. copyFile env fs src dst = (None, fs(dst \<mapsto> RegularFile c p))"
proof -
  from assms(1,4) have opened: "os_Open env fs src = Inr (RegularFile c m)"
    by (simp add: os_Open_def)
  from assms(3,5) obtain p0 where created:
    "os_Create env fs dst = (None, fs(dst \<mapsto> RegularFile [] p0))"
    using os_Create_file by blast
  let ?fs1 = "fs(dst \<mapsto> RegularFile [] p0)"
  let ?fs2 = "fs(dst \<mapsto> RegularFile c p0)"
  from assms(1,2,6) have copied: "io_Copy env ?fs1 dst src = (None, ?fs2)"
    by (simp add: io_Copy_def writeContent_def)
  from assms(1,2) have src2: "?fs2 src = Some (RegularFile c m)" by simp
  have "\<exists>p. snd (os_Chmod env ?fs2 dst m) = fs(dst \<mapsto> RegularFile c p)"
    by (cases "fault env (OpChmod dst)") (auto simp add: os_Chmod_def)
  then obtain p1 where chmod: "snd (os_Chmod env ?fs2 dst m) = fs(dst \<mapsto> RegularFile c p1)"
    by blast
  show ?thesis
  proof (cases "fault env (OpFstat src)")
    case None
    with opened created copied assms(7) src2 chmod
    have "copyFile env fs src dst = (None, fs(dst \<mapsto> RegularFile c p1))"
      by (simp add: copyFile_def)
    then show ?thesis by blast
  next
    case (Some e)
    with opened created copied assms(7)
    have "copyFile env fs src dst = (None, ?fs2)"
      by (simp add: copyFile_def)
    then show ?thesis by blast
  qed
qed

lemma copyFile_partial:
  assumes "fs src = Some (RegularFile c m)" and "src \<noteq> dst" and "fs dst \<noteq> Some Directory"
    and "fault env (OpOpen src) = None" and "fault env (OpCreate dst) = None"
    and "fault env (OpCopy dst src) = Some e" and "fault env (OpRemove dst) = None"
  shows "copyFile env fs src dst = (Some (CopyContentFailed e), fs(dst := None))"
proof -
  from assms(1,4) have opened: "os_Open env fs src = Inr (RegularFile c m)"
    by (simp add: os_Open_def)
  from assms(3,5) obtain p0 where created:
    "os_Create env fs dst = (None, fs(dst \<mapsto> RegularFile [] p0))"
    using os_Create_file by blast
  let ?fs1 = "fs(dst \<mapsto> RegularFile [] p0)"
  let ?fs2 = "fs(dst \<mapsto> RegularFile (take (copied env) c) p0)"
  from assms(1,2,6) have part: "io_Copy env ?fs1 dst src = (Some e, ?fs2)"
    by (simp add: io_Copy_def writeContent_def)
  from assms(7) have removed: "snd (os_Remove env ?fs2 dst) = fs(dst := None)"
    by (simp add: os_Remove_def)
  from opened created part removed show ?thesis
    by (simp add: copyFile_def)
qed

lemma copyFile_sync_fails:
  assumes "fs src = Some (RegularFile c m)" and "src \<noteq> dst" and "fs dst \<noteq> Some Directory"
    and "fault env (OpOpen src) = None" and "fault env (OpCreate dst) = None"
    and "fault env (OpCopy dst src) = None" and "fault env (OpSync dst) = Some e"
  shows "\<exists>p. copyFile env fs src dst = (Some (SyncFailed e), fs(dst \<mapsto> RegularFile c p))"
proof -
  from assms(1,4) have opened: "os_Open env fs src = Inr (RegularFile c m)"
    by (simp add: os_Open_def)
  from assms(3,5) obtain p0 where created:
    "os_Create env fs dst = (None, fs(dst \<mapsto> RegularFile [] p0))"
    using os_Create_file by blast
  from assms(1,2,6) have copied:
    "io_Copy env (fs(dst \<mapsto> RegularFile [] p0)) dst src = (None, fs(dst \<mapsto> RegularFile c p0))"
    by (simp add: io_Copy_def writeContent_def)
  from opened created copied assms(7)
  have "copyFile env fs src dst = (Some (SyncFailed e), fs(dst \<mapsto> RegularFile c p0))"
    by (simp add: copyFile_def)
  then show ?thesis by blast
qed

lemma os_Remove_file:
  assumes "fs p = Some n"
  shows "os_Remove env fs p
     = (case fault env (OpRemove p) of Some e \<Rightarrow> (Some e, fs) | None \<Rightarrow> (None, fs(p := None)))"
  using assms by (simp add: os_Remove_def split: option.splits)

lemma MoveFile_relocates:
  assumes "os_Stat env fs sourcePath = Inr (RegularFile c m)"
    and "os_MkdirAll env fs destDir = (None, fs1)"
    and "resolveDestination env fs1 (Join destDir (Base sourcePath)) strategy = Inr (d, clogs)"
    and "relocate env fs1 sourcePath d = (r, fs2, mlogs)"
  shows "MoveFile env fs sourcePath destDir strategy
     = (r, fs2, startLogs @ [Logged Debug ''Destination directory ready''] @ clogs @ mlogs)"
  using assms by (simp add: MoveFile_def isDir_def)

text \<open>
  C6. The rename fails with a cross-device error, for a regular source file and a
  destination path that is not the source. When the copy and the sync succeed, the
  destination holds the bytes of the source and the move succeeds: the source is
  removed, or, when removing it fails, it stays and the move still succeeds with a
  warning logged. When the copy fails partway, the destination file is removed, the
  copy error is returned and the source is as it was. When the sync fails, its error
  is returned and the source is as it was.
\<close>

theorem MoveFile_cross_device:
  "fs sourcePath = Some (RegularFile c m) \<and> fault env (OpStat sourcePath) = None
     \<and> os_MkdirAll env fs destDir = (None, fsd)
     \<and> resolveDestination env fsd (Join destDir (Base sourcePath)) strategy = Inr (d, clogs)
     \<and> fault env (OpRename sourcePath d) = Some CrossDevice
     \<and> d \<noteq> sourcePath \<and> fsd d \<noteq> Some Directory
     \<and> fault env (OpOpen sourcePath) = None \<and> fault env (OpCreate d) = None
   \<longrightarrow>
     (fault env (OpCopy d sourcePath) = None \<and> fault env (OpSync d) = None
        \<and> fault env (OpRemove sourcePath) = None
      \<longrightarrow> (\<exists>p fs2. MoveFile env fs sourcePath destDir strategy
               = (None, fs2, crossDeviceLogs clogs [Logged Info ''File moved successfully''])
             \<and> fs2 = fsd(d \<mapsto> RegularFile c p, sourcePath := None)
             \<and> fs2 d = Some (RegularFile c p) \<and> fs2 sourcePath = None))
     \<and> (fault env (OpCopy d sourcePath) = None \<and> fault env (OpSync d) = None
        \<and> fault env (OpRemove sourcePath) = Some re
      \<longrightarrow> (\<exists>p fs2. MoveFile env fs sourcePath destDir strategy
               = (None, fs2,
                  crossDeviceLogs clogs
                    [Logged Warn ''Failed to remove source file after copy'',
                     Logged Info ''File moved successfully''])
             \<and> fs2 = fsd(d \<mapsto> RegularFile c p)
             \<and> fs2 d = Some (RegularFile c p) \<and> fs2 sourcePath = Some (RegularFile c m)))
     \<and> (fault env (OpCopy d sourcePath) = Some e \<and> fault env (OpRemove d) = None
      \<longrightarrow> (\<exists>fs2. MoveFile env fs sourcePath destDir strategy
               = (Some (CopyFailed (CopyContentFailed e)), fs2, crossDeviceLogs clogs [])
             \<and> fs2 = fsd(d := None)
             \<and> fs2 d = None \<and> fs2 sourcePath = Some (RegularFile c m)))
     \<and> (fault env (OpCopy d sourcePath) = None \<and> fault env (OpSync d) = Some e
      \<longrightarrow> (\<exists>p fs2. MoveFile env fs sourcePath destDir strategy
               = (Some (CopyFailed (SyncFailed e)), fs2, crossDeviceLogs clogs [])
             \<and> fs2 = fsd(d \<mapsto> RegularFile c p)
             \<and> fs2 sourcePath = Some (RegularFile c m)))"
proof
  let ?dest = "Join destDir (Base sourcePath)"
  assume h: "fs sourcePath = Some (RegularFile c m) \<and> fault env (OpStat sourcePath) = None
     \<and> os_MkdirAll env fs destDir = (None, fsd)
     \<and> resolveDestination env fsd ?dest strategy = Inr (d, clogs)
     \<and> fault env (OpRename sourcePath d) = Some CrossDevice
     \<and> d \<noteq> sourcePath \<and> fsd d \<noteq> Some Directory
     \<and> fault env (OpOpen sourcePath) = None \<and> fault env (OpCreate d) = None"
  then have stat: "os_Stat env fs sourcePath = Inr (RegularFile c m)"
    by (simp add: os_Stat_def)
  from h have mk: "os_MkdirAll env fs destDir = (None, fsd)"
    and res: "resolveDestination env fsd ?dest strategy = Inr (d, clogs)"
    and ne: "sourcePath \<noteq> d" and nd: "fsd d \<noteq> Some Directory"
    and op: "fault env (OpOpen sourcePath) = None" and cr: "fault env (OpCreate d) = None"
    by auto
  have src: "fsd sourcePath = Some (RegularFile c m)"
    using h os_MkdirAll_preserves [of fs sourcePath "RegularFile c m" env destDir] by simp
  from h have ren: "os_Rename env fsd sourcePath d = (Some CrossDevice, fsd)"
    by (simp add: os_Rename_def)
  note move = MoveFile_relocates [OF stat mk res]
  have ok: "\<exists>p fs2. MoveFile env fs sourcePath destDir strategy
               = (None, fs2, crossDeviceLogs clogs [Logged Info ''File moved successfully''])
             \<and> fs2 = fsd(d \<mapsto> RegularFile c p, sourcePath := None)
             \<and> fs2 d = Some (RegularFile c p) \<and> fs2 sourcePath = None"
    if f: "fault env (OpCopy d sourcePath) = None \<and> fault env (OpSync d) = None
        \<and> fault env (OpRemove sourcePath) = None"
  proof -
    from f obtain p where cp: "copyFile env fsd sourcePath d = (None, fsd(d \<mapsto> RegularFile c p))"
      using copyFile_complete [OF src ne nd op cr] by blast
    have "(fsd(d \<mapsto> RegularFile c p)) sourcePath = Some (RegularFile c m)"
      using src ne by simp
    with f have rm: "os_Remove env (fsd(d \<mapsto> RegularFile c p)) sourcePath
        = (None, fsd(d \<mapsto> RegularFile c p, sourcePath := None))"
      by (simp add: os_Remove_file)
    have "relocate env fsd sourcePath d
        = (None, fsd(d \<mapsto> RegularFile c p, sourcePath := None),
           [Logged Debug ''Attempting to move file'',
            Logged Debug ''Cross-device move detected, using copy+delete'',
            Logged Info ''File moved successfully''])"
      by (simp add: relocate_def ren cp rm)
    from move [OF this] ne show ?thesis
      by (simp add: crossDeviceLogs_def)
  qed
  have warn: "\<exists>p fs2. MoveFile env fs sourcePath destDir strategy
               = (None, fs2,
                  crossDeviceLogs clogs
                    [Logged Warn ''Failed to remove source file after copy'',
                     Logged Info ''File moved successfully''])
             \<and> fs2 = fsd(d \<mapsto> RegularFile c p)
             \<and> fs2 d = Some (RegularFile c p) \<and> fs2 sourcePath = Some (RegularFile c m)"
    if f: "fault env (OpCopy d sourcePath) = None \<and> fault env (OpSync d) = None
        \<and> fault env (OpRemove sourcePath) = Some re"
  proof -
    from f obtain p where cp: "copyFile env fsd sourcePath d = (None, fsd(d \<mapsto> RegularFile c p))"
      using copyFile_complete [OF src ne nd op cr] by blast
    have "(fsd(d \<mapsto> RegularFile c p)) sourcePath = Some (RegularFile c m)"
      using src ne by simp
    with f have rm: "os_Remove env (fsd(d \<mapsto> RegularFile c p)) sourcePath
        = (Some re, fsd(d \<mapsto> RegularFile c p))"
      by (simp add: os_Remove_file)
    have "relocate env fsd sourcePath d
        = (None, fsd(d \<mapsto> RegularFile c p),
           [Logged Debug ''Attempting to move file'',
            Logged Debug ''Cross-device move detected, using copy+delete'',
            Logged Warn ''Failed to remove source file after copy'',
            Logged Info ''File moved successfully''])"
      by (simp add: relocate_def ren cp rm)
    from move [OF this] ne src show ?thesis
      by (simp add: crossDeviceLogs_def)
  qed
  have partial: "\<exists>fs2. MoveFile env fs sourcePath destDir strategy
               = (Some (CopyFailed (CopyContentFailed e)), fs2, crossDeviceLogs clogs [])
             \<and> fs2 = fsd(d := None)
             \<and> fs2 d = None \<and> fs2 sourcePath = Some (RegularFile c m)"
    if f: "fault env (OpCopy d sourcePath) = Some e \<and> fault env (OpRemove d) = None"
  proof -
    from f have cp: "copyFile env fsd sourcePath d = (Some (CopyContentFailed e), fsd(d := None))"
      using copyFile_partial [OF src ne nd op cr] by blast
    have "relocate env fsd sourcePath d
        = (Some (CopyFailed (CopyContentFailed e)), fsd(d := None),
           [Logged Debug ''Attempting to move file'',
            Logged Debug ''Cross-device move detected, using copy+delete''])"
      by (simp add: relocate_def ren cp)
    from move [OF this] ne src show ?thesis
      by (simp add: crossDeviceLogs_def)
  qed
  have sync: "\<exists>p fs2. MoveFile env fs sourcePath destDir strategy
               = (Some (CopyFailed (SyncFailed e)), fs2, crossDeviceLogs clogs [])
             \<and> fs2 = fsd(d \<mapsto> RegularFile c p)
             \<and> fs2 sourcePath = Some (RegularFile c m)"
    if f: "fault env (OpCopy d sourcePath) = None \<and> fault env (OpSync d) = Some e"
  proof -
    from f obtain p where cp:
      "copyFile env fsd sourcePath d = (Some (SyncFailed e), fsd(d \<mapsto> RegularFile c p))"
      using copyFile_sync_fails [OF src ne nd op cr] by blast
    have "relocate env fsd sourcePath d
        = (Some (CopyFailed (SyncFailed e)), fsd(d \<mapsto> RegularFile c p),
           [Logged Debug ''Attempting to move file'',
            Logged Debug ''Cross-device move detected, using copy+delete''])"
      by (simp add: relocate_def ren cp)
    from move [OF this] ne src show ?thesis
      by (intro exI [of _ p] exI [of _ "fsd(d \<mapsto> RegularFile c p)"])
         (simp add: crossDeviceLogs_def)
  qed
  from ok warn partial sync
  show "(fault env (OpCopy d sourcePath) = None \<and> fault env (OpSync d) = None
        \<and> fault env (OpRemove sourcePath) = None
      \<longrightarrow> (\<exists>p fs2. MoveFile env fs sourcePath destDir strategy
               = (None, fs2, crossDeviceLogs clogs [Logged Info ''File moved successfully''])
             \<and> fs2 = fsd(d \<mapsto> RegularFile c p, sourcePath := None)
             \<and> fs2 d = Some (RegularFile c p) \<and> fs2 sourcePath = None))
     \<and> (fault env (OpCopy d sourcePath) = None \<and> fault env (OpSync d) = None
        \<and> fault env (OpRemove sourcePath) = Some re
      \<longrightarrow> (\<exists>p fs2. MoveFile env fs sourcePath destDir strategy
               = (None, fs2,
                  crossDeviceLogs clogs
                    [Logged Warn ''Failed to remove source file after copy'',
                     Logged Info ''File moved successfully''])
             \<and> fs2 = fsd(d \<mapsto> RegularFile c p)
             \<and> fs2 d = Some (RegularFile c p) \<and> fs2 sourcePath = Some (RegularFile c m)))
     \<and> (fault env (OpCopy d sourcePath) = Some e \<and> fault env (OpRemove d) = None
      \<longrightarrow> (\<exists>fs2. MoveFile env fs sourcePath destDir strategy
               = (Some (CopyFailed (CopyContentFailed e)), fs2, crossDeviceLogs clogs [])
             \<and> fs2 = fsd(d := None)
             \<and> fs2 d = None \<and> fs2 sourcePath = Some (RegularFile c m)))
     \<and> (fault env (OpCopy d sourcePath) = None \<and> fault env (OpSync d) = Some e
      \<longrightarrow> (\<exists>p fs2. MoveFile env fs sourcePath destDir strategy
               = (Some (CopyFailed (SyncFailed e)), fs2, crossDeviceLogs clogs [])
             \<and> fs2 = fsd(d \<mapsto> RegularFile c p)
             \<and> fs2 sourcePath = Some (RegularFile c m)))"
    by blast
qed

lemma resolveDestination_out_b:
  assumes "fault env (OpStat ''/out/b.txt'') = None"
  shows "resolveDestination env disk ''/out/b.txt'' strategy = Inr (''/out/b.txt'', [])"
  using assms by (simp add: resolveDestination_def os_Stat_def disk_def)

theorem MoveFile_cross_device_witness:
  "(\<exists>p fs2. MoveFile (crossDevice ''/in/b.txt'' ''/out/b.txt'' []) disk ''/in/b.txt'' ''/out''
               ''overwrite''
             = (None, fs2, crossDeviceLogs [] [Logged Info ''File moved successfully''])
           \<and> fs2 = disk(''/out/b.txt'' \<mapsto> RegularFile ''hello world'' p, ''/in/b.txt'' := None)
           \<and> fs2 ''/out/b.txt'' = Some (RegularFile ''hello world'' p)
           \<and> fs2 ''/in/b.txt'' = None)
   \<and> (\<exists>p fs2. MoveFile (crossDevice ''/in/b.txt'' ''/out/b.txt'' [OpRemove ''/in/b.txt''])
               disk ''/in/b.txt'' ''/out'' ''overwrite''
             = (None, fs2,
                crossDeviceLogs []
                  [Logged Warn ''Failed to remove source file after copy'',
                   Logged Info ''File moved successfully''])
           \<and> fs2 = disk(''/out/b.txt'' \<mapsto> RegularFile ''hello world'' p)
           \<and> fs2 ''/out/b.txt'' = Some (RegularFile ''hello world'' p)
           \<and> fs2 ''/in/b.txt'' = Some (RegularFile ''hello world'' 384))
   \<and> (\<exists>fs2. MoveFile
               (crossDevice ''/in/b.txt'' ''/out/b.txt'' [OpCopy ''/out/b.txt'' ''/in/b.txt''])
               disk ''/in/b.txt'' ''/out'' ''overwrite''
             = (Some (CopyFailed (CopyContentFailed OtherErr)), fs2, crossDeviceLogs [] [])
           \<and> fs2 = disk(''/out/b.txt'' := None)
           \<and> fs2 ''/out/b.txt'' = None
           \<and> fs2 ''/in/b.txt'' = Some (RegularFile ''hello world'' 384))"
proof -
  let ?e1 = "crossDevice ''/in/b.txt'' ''/out/b.txt'' []"
  let ?e2 = "crossDevice ''/in/b.txt'' ''/out/b.txt'' [OpRemove ''/in/b.txt'']"
  let ?e3 = "crossDevice ''/in/b.txt'' ''/out/b.txt'' [OpCopy ''/out/b.txt'' ''/in/b.txt'']"
  have reach: "disk ''/in/b.txt'' = Some (RegularFile ''hello world'' 384)
     \<and> fault e (OpStat ''/in/b.txt'') = None
     \<and> os_MkdirAll e disk ''/out'' = (None, disk)
     \<and> resolveDestination e disk (Join ''/out'' (Base ''/in/b.txt'')) ''overwrite''
         = Inr (''/out/b.txt'', [])
     \<and> fault e (OpRename ''/in/b.txt'' ''/out/b.txt'') = Some CrossDevice
     \<and> ''/out/b.txt'' \<noteq> ''/in/b.txt'' \<and> disk ''/out/b.txt'' \<noteq> Some Directory
     \<and> fault e (OpOpen ''/in/b.txt'') = None \<and> fault e (OpCreate ''/out/b.txt'') = None"
    if "fault e (OpStat ''/in/b.txt'') = None" and "fault e (OpMkdirAll ''/out'') = None"
      and "fault e (OpStat ''/out/b.txt'') = None"
      and "fault e (OpRename ''/in/b.txt'' ''/out/b.txt'') = Some CrossDevice"
      and "fault e (OpOpen ''/in/b.txt'') = None" and "fault e (OpCreate ''/out/b.txt'') = None"
    for e
    using that
    by (simp add: os_MkdirAll_out_env resolveDestination_out_b Join_out_b) (simp add: disk_def)
  have h1: "disk ''/in/b.txt'' = Some (RegularFile ''hello world'' 384)
     \<and> fault ?e1 (OpStat ''/in/b.txt'') = None
     \<and> os_MkdirAll ?e1 disk ''/out'' = (None, disk)
     \<and> resolveDestination ?e1 disk (Join ''/out'' (Base ''/in/b.txt'')) ''overwrite''
         = Inr (''/out/b.txt'', [])
     \<and> fault ?e1 (OpRename ''/in/b.txt'' ''/out/b.txt'') = Some CrossDevice
     \<and> ''/out/b.txt'' \<noteq> ''/in/b.txt'' \<and> disk ''/out/b.txt'' \<noteq> Some Directory
     \<and> fault ?e1 (OpOpen ''/in/b.txt'') = None \<and> fault ?e1 (OpCreate ''/out/b.txt'') = None"
    by (rule reach) (simp_all add: crossDevice_def)
  have h2: "disk ''/in/b.txt'' = Some (RegularFile ''hello world'' 384)
     \<and> fault ?e2 (OpStat ''/in/b.txt'') = None
     \<and> os_MkdirAll ?e2 disk ''/out'' = (None, disk)
     \<and> resolveDestination ?e2 disk (Join ''/out'' (Base ''/in/b.txt'')) ''overwrite''
         = Inr (''/out/b.txt'', [])
     \<and> fault ?e2 (OpRename ''/in/b.txt'' ''/out/b.txt'') = Some CrossDevice
     \<and> ''/out/b.txt'' \<noteq> ''/in/b.txt'' \<and> disk ''/out/b.txt'' \<noteq> Some Directory
     \<and> fault ?e2 (OpOpen ''/in/b.txt'') = None \<and> fault ?e2 (OpCreate ''/out/b.txt'') = None"
    by (rule reach) (simp_all add: crossDevice_def)
  have h3: "disk ''/in/b.txt'' = Some (RegularFile ''hello world'' 384)
     \<and> fault ?e3 (OpStat ''/in/b.txt'') = None
     \<and> os_MkdirAll ?e3 disk ''/out'' = (None, disk)
     \<and> resolveDestination ?e3 disk (Join ''/out'' (Base ''/in/b.txt'')) ''overwrite''
         = Inr (''/out/b.txt'', [])
     \<and> fault ?e3 (OpRename ''/in/b.txt'' ''/out/b.txt'') = Some CrossDevice
     \<and> ''/out/b.txt'' \<noteq> ''/in/b.txt'' \<and> disk ''/out/b.txt'' \<noteq> Some Directory
     \<and> fault ?e3 (OpOpen ''/in/b.txt'') = None \<and> fault ?e3 (OpCreate ''/out/b.txt'') = None"
    by (rule reach) (simp_all add: crossDevice_def)
  have f1: "fault ?e1 (OpCopy ''/out/b.txt'' ''/in/b.txt'') = None
      \<and> fault ?e1 (OpSync ''/out/b.txt'') = None \<and> fault ?e1 (OpRemove ''/in/b.txt'') = None"
    by (simp add: crossDevice_def)
  have f2: "fault ?e2 (OpCopy ''/out/b.txt'' ''/in/b.txt'') = None
      \<and> fault ?e2 (OpSync ''/out/b.txt'') = None
      \<and> fault ?e2 (OpRemove ''/in/b.txt'') = Some OtherErr"
    by (simp add: crossDevice_def)
  have f3: "fault ?e3 (OpCopy ''/out/b.txt'' ''/in/b.txt'') = Some OtherErr
      \<and> fault ?e3 (OpRemove ''/out/b.txt'') = None"
    by (simp add: crossDevice_def)
  note r1 = MoveFile_cross_device
      [where fs = disk and sourcePath = "''/in/b.txt''" and c = "''hello world''" and m = 384
        and env = ?e1 and destDir = "''/out''" and fsd = disk and strategy = "''overwrite''"
        and d = "''/out/b.txt''" and clogs = "[]",
        THEN mp, OF h1, THEN conjunct1, THEN mp, OF f1]
  note r2 = MoveFile_cross_device
      [where fs = disk and sourcePath = "''/in/b.txt''" and c = "''hello world''" and m = 384
        and env = ?e2 and destDir = "''/out''" and fsd = disk and strategy = "''overwrite''"
        and d = "''/out/b.txt''" and clogs = "[]" and re = OtherErr,
        THEN mp, OF h2, THEN conjunct2, THEN conjunct1, THEN mp, OF f2]
  note r3 = MoveFile_cross_device
      [where fs = disk and sourcePath = "''/in/b.txt''" and c = "''hello world''" and m = 384
        and env = ?e3 and destDir = "''/out''" and fsd = disk and strategy = "''overwrite''"
        and d = "''/out/b.txt''" and clogs = "[]" and e = OtherErr,
        THEN mp, OF h3, THEN conjunct2, THEN conjunct2, THEN conjunct1, THEN mp, OF f3]
  from r1 r2 r3 show ?thesis by (intro conjI)
qed

end
